theory Spec2Isabelle
  imports Complex_Main "HOL-Library.Multiset" "HOL-Library.AList"
    "HOL-Library.List_Lexorder" "HOL-Library.Char_ord"
begin

section \<open>Values, errors and library helpers\<close>

text \<open>
  The script \<^verbatim>\<open>src/dataio/deap/make_deap_dataset.py\<close> is embedded function by
  function. Python exceptions are values of \<open>error\<close>; a function that can raise returns
  \<open>error + 'a\<close> with \<open>Inl\<close> for the exception.

  Floating-point numbers are idealised as rationals: the breakpoints of
  \<^verbatim>\<open>np.linspace\<close> and the comparisons on them are exact. A Python variable that holds
  either a float or an int (as \<^verbatim>\<open>label_channel\<close> does) is a \<open>pynum\<close>; Python compares
  the two kinds by numeric value.
\<close>

datatype error =
    UnboundLocalError string
  | IndexError
  | ValueError string
  | ZeroDivisionError
  | StopIteration
  | AttributeError string
  | TypeError
  | FileNotFound string

datatype pynum = PFloat rat | PInt int

fun num_val :: "pynum \<Rightarrow> rat" where
  "num_val (PFloat r) = r"
| "num_val (PInt i) = of_int i"

definition bind_err :: "error + 'a \<Rightarrow> ('a \<Rightarrow> error + 'b) \<Rightarrow> error + 'b" where
  "bind_err m f = (case m of Inl e \<Rightarrow> Inl e | Inr x \<Rightarrow> f x)"

text \<open>\<^verbatim>\<open>xs[i]\<close> for a non-negative index: IndexError out of range.\<close>

definition index :: "'a list \<Rightarrow> nat \<Rightarrow> error + 'a" where
  "index xs i = (if i < length xs then Inr (xs ! i) else Inl IndexError)"

text \<open>
  \<^verbatim>\<open>{k: v for k, v in pairs}\<close>: a dict keeps insertion order, and a repeated key keeps
  its first position with the last value.
\<close>

definition dict_of :: "('k \<times> 'v) list \<Rightarrow> ('k \<times> 'v) list" where
  "dict_of kvs = fold (\<lambda>(k, v) d. AList.update k v d) kvs []"

section \<open>LabelTransformer\<close>

text \<open>
  \<^verbatim>\<open>np.linspace(start, stop, num)\<close> for \<open>num\<close> points: \<open>start + i * step\<close> with
  \<open>step = (stop - start) / (num - 1)\<close>, the last point set to \<open>stop\<close>; one point is
  \<open>[start]\<close>, none is \<open>[]\<close>.
\<close>

definition linspace :: "rat \<Rightarrow> rat \<Rightarrow> nat \<Rightarrow> rat list" where
  "linspace start stop num =
     (if num = 0 then []
      else if num = 1 then [start]
      else map (\<lambda>i. start + of_nat i * ((stop - start) / of_nat (num - 1))) [0..<num - 1]
           @ [stop])"

text \<open>
  \<^verbatim>\<open>build_classes(num_classes, min_value=1.0, max_value=9)\<close>: the breakpoints paired with
  their successors (\<^verbatim>\<open>tee\<close>, \<^verbatim>\<open>next(b, None)\<close>, \<^verbatim>\<open>zip(a, b)\<close>). The class count is a
  natural number here: \<^verbatim>\<open>np.linspace\<close> rejects a negative number of points.
\<close>

definition build_classes_range :: "nat \<Rightarrow> rat \<Rightarrow> rat \<Rightarrow> (rat \<times> rat) list" where
  "build_classes_range num_classes min_value max_value =
     (let breaks = linspace min_value max_value (num_classes + 1)
      in zip breaks (tl breaks))"

definition build_classes :: "nat \<Rightarrow> (rat \<times> rat) list" where
  "build_classes num_classes = build_classes_range num_classes 1 9"

record LabelTransformer =
  valence_classes :: "(rat \<times> rat) list"
  arousal_classes :: "(rat \<times> rat) list"
  dominance_classes :: "(rat \<times> rat) list"
  liking_classes :: "(rat \<times> rat) list"
  label_names :: "string list"

definition LabelTransformer_init ::
  "nat \<Rightarrow> nat \<Rightarrow> nat \<Rightarrow> nat \<Rightarrow> string list \<Rightarrow> LabelTransformer" where
  "LabelTransformer_init valence arousal dominance liking names =
     \<lparr> valence_classes = build_classes valence,
       arousal_classes = build_classes arousal,
       dominance_classes = build_classes dominance,
       liking_classes = build_classes liking,
       label_names = names \<rparr>"

text \<open>
  The \<^verbatim>\<open>for ... enumerate(classes)\<close> loop of
  \<^verbatim>\<open>transform_label_channel_with_classes\<close>. The state is the pair of the variables
  \<^verbatim>\<open>label_channel\<close> and \<^verbatim>\<open>max_exclusive\<close>; the latter is unbound (\<open>None\<close>) until the
  first iteration. On a match \<^verbatim>\<open>label_channel\<close> becomes the class id and the loop
  breaks, so \<^verbatim>\<open>max_exclusive\<close> stays the upper bound of the matched interval.
\<close>

fun scan_classes ::
  "rat \<Rightarrow> (nat \<times> rat \<times> rat) list \<Rightarrow> rat option \<Rightarrow> pynum \<times> rat option" where
  "scan_classes v [] mx = (PFloat v, mx)"
| "scan_classes v ((class_id, min_inclusive, max_exclusive) # rest) mx =
     (if v \<ge> min_inclusive \<and> v < max_exclusive
      then (PInt (int class_id), Some max_exclusive)
      else scan_classes v rest (Some max_exclusive))"

text \<open>
  After the loop, \<^verbatim>\<open>if label_channel == max_exclusive\<close> compares whatever
  \<^verbatim>\<open>label_channel\<close> now holds (the class id after a match, the input otherwise) with
  the last upper bound seen. With an empty table \<^verbatim>\<open>max_exclusive\<close> was never bound.
\<close>

definition transform_label_channel_with_classes ::
  "rat \<Rightarrow> (rat \<times> rat) list \<Rightarrow> error + pynum" where
  "transform_label_channel_with_classes label_channel classes =
     (case scan_classes label_channel (enumerate 0 classes) None of
        (lc, None) \<Rightarrow> Inl (UnboundLocalError ''max_exclusive'')
      | (lc, Some max_exclusive) \<Rightarrow>
          Inr (if num_val lc = max_exclusive then PInt (int (length classes) - 1) else lc))"

datatype labels_out = LabelArray "pynum list" | LabelDict "(string \<times> pynum) list"

definition transform_labels ::
  "LabelTransformer \<Rightarrow> rat list \<Rightarrow> bool \<Rightarrow> error + labels_out" where
  "transform_labels self labels return_np =
     bind_err (index labels 0) (\<lambda>l0.
     bind_err (transform_label_channel_with_classes l0 (valence_classes self)) (\<lambda>valence_label.
     bind_err (index labels 1) (\<lambda>l1.
     bind_err (transform_label_channel_with_classes l1 (valence_classes self)) (\<lambda>arousal_label.
     bind_err (index labels 2) (\<lambda>l2.
     bind_err (transform_label_channel_with_classes l2 (valence_classes self)) (\<lambda>dominance_label.
     bind_err (index labels 3) (\<lambda>l3.
     bind_err (transform_label_channel_with_classes l3 (valence_classes self)) (\<lambda>liking_label.
       let out = [valence_label, arousal_label, dominance_label, liking_label]
       in if return_np then Inr (LabelArray out)
          else Inr (LabelDict (dict_of (zip (label_names self) out)))))))))))"

section \<open>Arrays\<close>

text \<open>
  A sample is a two-dimensional array (a list of rows), or a three-dimensional one after
  the spectrogram. Arrays are lists of lists; they are rectangular in every use, and an
  array without rows has no recorded column count. \<^verbatim>\<open>np.swapaxes(a, 0, 1)\<close> transposes
  the two outer axes.
\<close>

datatype 'a ndarray = A2 "'a list list" | A3 "'a list list list"

fun ndarray_shape :: "'a ndarray \<Rightarrow> nat list" where
  "ndarray_shape (A2 m) = [length m, (case m of [] \<Rightarrow> 0 | r # _ \<Rightarrow> length r)]"
| "ndarray_shape (A3 t) =
     [length t,
      (case t of [] \<Rightarrow> 0 | m # _ \<Rightarrow> length m),
      (case t of [] \<Rightarrow> 0 | m # _ \<Rightarrow> (case m of [] \<Rightarrow> 0 | r # _ \<Rightarrow> length r))]"

fun swapaxes01 :: "'a ndarray \<Rightarrow> 'a ndarray" where
  "swapaxes01 (A2 m) = A2 (transpose m)"
| "swapaxes01 (A3 t) = A3 (transpose t)"

text \<open>Mapping a function that can raise over a list, left to right.\<close>

fun map_err :: "('a \<Rightarrow> error + 'b) \<Rightarrow> 'a list \<Rightarrow> error + 'b list" where
  "map_err f [] = Inr []"
| "map_err f (x # xs) =
     bind_err (f x) (\<lambda>y. bind_err (map_err f xs) (\<lambda>ys. Inr (y # ys)))"

text \<open>\<^verbatim>\<open>a[idx]\<close> for an array of non-negative positions \<open>idx\<close>.\<close>

definition take_indices :: "'a list \<Rightarrow> nat list \<Rightarrow> error + 'a list" where
  "take_indices xs idx = map_err (index xs) idx"

text \<open>
  Assigning an array to a slot of shape \<open>(rows, cols)\<close>: numpy broadcasts an axis of
  length one, strips a leading axis of length one, and raises ValueError otherwise.
\<close>

definition broadcast_row :: "nat \<Rightarrow> 'a list \<Rightarrow> error + 'a list" where
  "broadcast_row n r =
     (if length r = n then Inr r
      else if length r = 1 then Inr (replicate n (hd r))
      else Inl (ValueError ''could not broadcast input array''))"

definition broadcast_rows :: "nat \<times> nat \<Rightarrow> 'a list list \<Rightarrow> error + 'a list list" where
  "broadcast_rows sh m =
     (if length m = fst sh then map_err (broadcast_row (snd sh)) m
      else if length m = 1
        then bind_err (broadcast_row (snd sh) (hd m)) (\<lambda>r. Inr (replicate (fst sh) r))
      else Inl (ValueError ''could not broadcast input array''))"

fun broadcast_to :: "nat \<times> nat \<Rightarrow> 'a ndarray \<Rightarrow> error + 'a list list" where
  "broadcast_to sh (A2 m) = broadcast_rows sh m"
| "broadcast_to sh (A3 t) =
     (if length t = 1 then broadcast_rows sh (hd t)
      else Inl (ValueError ''could not broadcast input array''))"

text \<open>
  \<^verbatim>\<open>int(x)\<close> truncates towards zero, and so does storing a number in an integer
  array; \<^verbatim>\<open>round(x)\<close> rounds to the nearest integer, a half to the even neighbour.
\<close>

definition py_int :: "rat \<Rightarrow> int" where
  "py_int x = (if 0 \<le> x then \<lfloor>x\<rfloor> else \<lceil>x\<rceil>)"

definition py_round :: "rat \<Rightarrow> int" where
  "py_round x =
     (let f = \<lfloor>x\<rfloor>; d = x - of_int f
      in if d < 1 / 2 then f else if 1 / 2 < d then f + 1 else if even f then f else f + 1)"

fun int_cast :: "pynum \<Rightarrow> int" where
  "int_cast (PInt i) = i"
| "int_cast (PFloat r) = py_int r"

section \<open>DEAPWriter\<close>

text \<open>
  A serialized example is the feature dict of \<^verbatim>\<open>serialize_example\<close>: the sample under
  \<^verbatim>\<open>"X"\<close> and one entry per label name, filled in the order of \<^verbatim>\<open>labels.keys()\<close>.
  \<^verbatim>\<open>int64_feature\<close> builds a \<^verbatim>\<open>tf.train.Int64List\<close>, which takes integers only: a
  float label raises TypeError. The byte encoding of the record container is outside the
  model.
\<close>

datatype 'a feature = NumpyFeature "'a ndarray" | Int64Feature int

type_synonym 'a example = "(string \<times> 'a feature) list"

fun label_features :: "(string \<times> pynum) list \<Rightarrow> 'a example \<Rightarrow> error + 'a example" where
  "label_features [] feature = Inr feature"
| "label_features ((label_name, PInt i) # rest) feature =
     label_features rest (AList.update label_name (Int64Feature i) feature)"
| "label_features ((label_name, PFloat r) # rest) feature = Inl TypeError"

definition serialize_example ::
  "'a ndarray \<Rightarrow> (string \<times> pynum) list \<Rightarrow> error + 'a example" where
  "serialize_example data labels = label_features labels [(''X'', NumpyFeature data)]"

text \<open>
  The writer object. \<open>writers\<close> holds, per destination, the records written so far, and
  is unset before \<^verbatim>\<open>__enter__\<close>. \<open>writer_iterator\<close> is the position of
  \<^verbatim>\<open>itertools.cycle(self.writers)\<close>: the index of the writer that \<^verbatim>\<open>next\<close> returns.
\<close>

record 'a DEAPWriter =
  filenames :: "string list"
  records_processed :: "nat list"
  writers :: "'a example list list option"
  writer_iterator :: nat
  shape :: "nat list option"
  writers_closed :: bool

definition DEAPWriter_init :: "string list \<Rightarrow> 'a DEAPWriter" where
  "DEAPWriter_init names =
     \<lparr> filenames = names, records_processed = replicate (length names) 0,
       writers = None, writer_iterator = 0, shape = None, writers_closed = False \<rparr>"

definition DEAPWriter_enter :: "'a DEAPWriter \<Rightarrow> 'a DEAPWriter" where
  "DEAPWriter_enter self =
     self\<lparr> writers := Some (replicate (length (filenames self)) []), writer_iterator := 0 \<rparr>"

definition DEAPWriter_exit :: "'a DEAPWriter \<Rightarrow> 'a DEAPWriter" where
  "DEAPWriter_exit self = self\<lparr> writers_closed := True \<rparr>"

text \<open>
  \<^verbatim>\<open>write_example\<close>: the example is serialized first, so a TypeError of the
  serialization comes before the writer is taken; \<^verbatim>\<open>next\<close> on the cycle of an empty list
  raises StopIteration; \<^verbatim>\<open>self.writers.index(this_writer)\<close> is the position of the
  writer just taken (writer objects are equal only to themselves). When the call raises,
  the writer is as before, but for the attribute \<^verbatim>\<open>shape\<close>, which nothing reads after an
  exception.
\<close>

definition DEAPWriter_write_example ::
  "'a ndarray \<Rightarrow> (string \<times> pynum) list \<Rightarrow> 'a DEAPWriter \<Rightarrow> error + 'a DEAPWriter" where
  "DEAPWriter_write_example data labels self =
     bind_err (serialize_example data labels) (\<lambda>serialized.
      case writers self of
        None \<Rightarrow> Inl (AttributeError ''writer_iterator'')
      | Some ws \<Rightarrow>
          if ws = [] then Inl StopIteration
          else
            let writer_id = writer_iterator self in
            Inr (self\<lparr> shape := Some (ndarray_shape data),
                       writers := Some (ws[writer_id := ws ! writer_id @ [serialized]]),
                       writer_iterator := (writer_id + 1) mod length ws,
                       records_processed :=
                         (records_processed self)
                           [writer_id := records_processed self ! writer_id + 1] \<rparr>))"

text \<open>A sequence of calls to \<^verbatim>\<open>write_example\<close>, stopping at the first exception.\<close>

fun write_examples ::
  "('a ndarray \<times> (string \<times> pynum) list) list \<Rightarrow> 'a DEAPWriter \<Rightarrow> error + 'a DEAPWriter" where
  "write_examples [] w = Inr w"
| "write_examples ((data, labels) # rest) w =
     bind_err (DEAPWriter_write_example data labels w) (write_examples rest)"

section \<open>DEAPWriterBuffer\<close>

text \<open>
  The buffer is preallocated with \<^verbatim>\<open>np.zeros\<close>: \<open>buffer_size\<close> slots of shape
  \<open>item_shape\<close> for the samples (two axes, as the script passes them) and as many
  integer label vectors of length \<open>label_len\<close>. A negative size makes \<^verbatim>\<open>np.zeros\<close>
  raise. The buffer holds its writer.
\<close>

record 'a DEAPWriterBuffer =
  item_shape :: "nat \<times> nat"
  label_len :: nat
  data_buffer :: "'a list list list"
  label_buffer :: "int list list"
  writer :: "'a DEAPWriter"
  collected :: nat
  buffer_label_names :: "string list"

definition DEAPWriterBuffer_init ::
  "'a::zero DEAPWriter \<Rightarrow> nat \<times> nat \<Rightarrow> nat \<Rightarrow> int \<Rightarrow> error + 'a DEAPWriterBuffer" where
  "DEAPWriterBuffer_init dw ishape llen buffer_size =
     (if buffer_size < 0 then Inl (ValueError ''negative dimensions are not allowed'')
      else Inr \<lparr> item_shape = ishape, label_len = llen,
                 data_buffer =
                   replicate (nat buffer_size) (replicate (fst ishape) (replicate (snd ishape) 0)),
                 label_buffer = replicate (nat buffer_size) (replicate llen 0),
                 writer = dw, collected = 0,
                 buffer_label_names = [''valence'', ''arousal'', ''dominance'', ''liking''] \<rparr>)"

definition labels_np_to_dict :: "'a DEAPWriterBuffer \<Rightarrow> int list \<Rightarrow> (string \<times> pynum) list" where
  "labels_np_to_dict self l = dict_of (zip (buffer_label_names self) (map PInt l))"

text \<open>
  \<^verbatim>\<open>write_example\<close>: the two slot assignments, then the cursor. An index past the
  last slot raises IndexError; the sample is broadcast to the slot's shape and the labels
  are cast to integers.
\<close>

definition DEAPWriterBuffer_write_example ::
  "'a ndarray \<Rightarrow> pynum list \<Rightarrow> 'a DEAPWriterBuffer \<Rightarrow> error + 'a DEAPWriterBuffer" where
  "DEAPWriterBuffer_write_example data labels self =
     (if collected self \<ge> length (data_buffer self) then Inl IndexError
      else
        bind_err (broadcast_to (item_shape self) data) (\<lambda>d.
        bind_err (broadcast_row (label_len self) (map int_cast labels)) (\<lambda>l.
          Inr (self\<lparr> data_buffer := (data_buffer self)[collected self := d],
                     label_buffer := (label_buffer self)[collected self := l],
                     collected := collected self + 1 \<rparr>))))"

text \<open>
  \<^verbatim>\<open>flush_buffer\<close>. The outcome of \<^verbatim>\<open>np.random.permutation(self.collected)\<close> is the
  argument \<open>permutation\<close>. Both buffers are indexed with it, and the first
  \<open>collected\<close> entries of the results are written in order.
\<close>

fun flush_loop ::
  "nat list \<Rightarrow> 'a DEAPWriterBuffer \<Rightarrow> error + 'a DEAPWriterBuffer" where
  "flush_loop [] self = Inr self"
| "flush_loop (i # rest) self =
     bind_err (index (data_buffer self) i) (\<lambda>d.
     bind_err (index (label_buffer self) i) (\<lambda>l.
     bind_err (DEAPWriter_write_example (A2 d) (labels_np_to_dict self l) (writer self)) (\<lambda>w.
       flush_loop rest (self\<lparr> writer := w \<rparr>))))"

definition flush_buffer ::
  "nat list \<Rightarrow> 'a DEAPWriterBuffer \<Rightarrow> error + 'a DEAPWriterBuffer" where
  "flush_buffer permutation self =
     bind_err (take_indices (data_buffer self) permutation) (\<lambda>db.
     bind_err (take_indices (label_buffer self) permutation) (\<lambda>lb.
       flush_loop [0..<collected self] (self\<lparr> data_buffer := db, label_buffer := lb \<rparr>)))"

text \<open>A sequence of calls to the buffer's \<^verbatim>\<open>write_example\<close>.\<close>

fun buffer_examples ::
  "('a ndarray \<times> pynum list) list \<Rightarrow> 'a DEAPWriterBuffer \<Rightarrow> error + 'a DEAPWriterBuffer" where
  "buffer_examples [] b = Inr b"
| "buffer_examples ((data, labels) # rest) b =
     bind_err (DEAPWriterBuffer_write_example data labels b) (buffer_examples rest)"

section \<open>Windows\<close>

text \<open>
  \<^verbatim>\<open>more_itertools.windowed(seq, n, fillvalue=None, step=1)\<close>, a library function, as
  its documentation gives it: windows of width \<open>n\<close> start at the positions
  \<open>0, step, 2 * step, \<dots>\<close>; when the items run out inside a window the window is filled
  up with the fill value (\<open>None\<close>), and no window starts once the items are used up
  (for a sequence without items the current versions of the library yield no window).
  \<^verbatim>\<open>windowed([1, 2, 3, 4, 5, 6], 3, step=2)\<close> is
  \<^verbatim>\<open>[(1, 2, 3), (3, 4, 5), (5, 6, None)]\<close>. A negative \<open>n\<close> and a step below 1 raise
  ValueError, \<open>n = 0\<close> yields one empty window. The step counts whole items: a
  whole-valued float (the script passes \<^verbatim>\<open>128 * 0.5\<close>) is taken as that integer, any
  other fraction is rejected.
\<close>

function windowed_from :: "'a list \<Rightarrow> nat \<Rightarrow> nat \<Rightarrow> 'a option list list" where
  "windowed_from xs n step =
     (if xs = [] then []
      else if length xs \<le> n \<or> step = 0
        then [map Some xs @ replicate (n - length xs) None]
      else map Some (take n xs) # windowed_from (drop step xs) n step)"
  by pat_completeness auto
termination
  by (relation "measure (\<lambda>(xs, n, step). length xs)") auto

declare windowed_from.simps [simp del]

definition windowed :: "'a list \<Rightarrow> int \<Rightarrow> rat \<Rightarrow> error + 'a option list list" where
  "windowed seq n step =
     (if n < 0 then Inl (ValueError ''n must be >= 0'')
      else if n = 0 then Inr [[]]
      else if step < 1 then Inl (ValueError ''step must be >= 1'')
      else if of_int \<lfloor>step\<rfloor> \<noteq> step then Inl TypeError
      else Inr (windowed_from seq (nat n) (nat \<lfloor>step\<rfloor>)))"

section \<open>The environment: files, random draws, external transforms\<close>

text \<open>
  A recording is what \<^verbatim>\<open>unpickle\<close> returns: \<open>data[trial][channel][time]\<close> and
  \<open>labels[trial][4]\<close>. The file system is a function from paths to recordings; a path
  without one makes \<^verbatim>\<open>unpickle\<close> raise.

  The random draws are arguments. \<^verbatim>\<open>np.random.choice(a, size, replace=False)\<close> returns
  \<open>size\<close> distinct numbers below \<open>a\<close>; \<^verbatim>\<open>np.random.permutation(n)\<close>,
  \<^verbatim>\<open>np.random.shuffle\<close> and \<^verbatim>\<open>random.shuffle\<close> draw a permutation of \<open>[0, n)\<close>.
  The draws are indexed by the place of the call (file, experiment) and by \<open>n\<close>.

  The wavelet decomposition, the spectrogram and the summary statistics of the
  \<^verbatim>\<open>tripathi\<close> method are functions of \<^verbatim>\<open>pywt\<close>, \<^verbatim>\<open>scipy\<close> and \<^verbatim>\<open>numpy\<close>; they
  are arguments as well.
\<close>

type_synonym 'a recording = "'a list list list \<times> rat list list"

definition unpickle :: "(string \<Rightarrow> 'a recording option) \<Rightarrow> string \<Rightarrow> error + 'a recording" where
  "unpickle fs file = (case fs file of None \<Rightarrow> Inl (FileNotFound file) | Some r \<Rightarrow> Inr r)"

record rng =
  choice :: "nat \<Rightarrow> nat \<Rightarrow> nat list"
  train_permutation :: "nat \<Rightarrow> nat list"
  test_permutation :: "nat \<Rightarrow> nat list"
  trial_shuffle :: "nat \<Rightarrow> nat \<Rightarrow> nat list"
  window_shuffle :: "nat \<Rightarrow> nat \<Rightarrow> nat \<Rightarrow> nat list"

record 'a transforms =
  dwt_alpha :: "'a list list \<Rightarrow> 'a ndarray"
  fft :: "'a list list \<Rightarrow> 'a ndarray"
  tripathi_features :: "'a list list list \<Rightarrow> nat \<Rightarrow> 'a list list list"

text \<open>\<^verbatim>\<open>sub in s\<close> on strings, and \<^verbatim>\<open>os.path.join\<close> of two components.\<close>

fun is_prefix :: "'a list \<Rightarrow> 'a list \<Rightarrow> bool" where
  "is_prefix [] ys = True"
| "is_prefix (x # xs) [] = False"
| "is_prefix (x # xs) (y # ys) = (x = y \<and> is_prefix xs ys)"

fun contains :: "'a list \<Rightarrow> 'a list \<Rightarrow> bool" where
  "contains sub [] = (sub = [])"
| "contains sub (c # cs) = (is_prefix sub (c # cs) \<or> contains sub cs)"

definition path_join :: "string \<Rightarrow> string \<Rightarrow> string" where
  "path_join a b =
     (if is_prefix ''/'' b then b
      else if a = [] \<or> last a = CHR ''/'' then a @ b
      else a @ ''/'' @ b)"

section \<open>split_with_windows and process_file_subject_dependent\<close>

text \<open>
  \<^verbatim>\<open>data[w, :]\<close> selects the rows at the positions of the window \<open>w\<close>; a position
  outside the array and a \<open>None\<close> in the window raise IndexError.
\<close>

definition select_rows :: "'a list list \<Rightarrow> nat option list \<Rightarrow> error + 'a list list" where
  "select_rows data w =
     map_err (\<lambda>p. case p of None \<Rightarrow> Inl IndexError | Some i \<Rightarrow> index data i) w"

definition split_with_windows ::
  "'a list list \<Rightarrow> nat option list list \<Rightarrow> error + 'a list list list" where
  "split_with_windows data windows = map_err (select_rows data) windows"

text \<open>
  The two writers of the subject-dependent pass with the running sample counter
  (\<^verbatim>\<open>current_sample\<close> is a shared array of one number, advanced in place).
\<close>

record 'a split_writers =
  train_writer :: "'a DEAPWriterBuffer"
  test_writer :: "'a DEAPWriterBuffer"
  current_sample :: nat

text \<open>
  Lines 504 to 508: the sample goes to the test writer when the counter is among the
  validation indices, to the train writer otherwise, and the counter advances.
\<close>

definition emit_sample ::
  "nat list \<Rightarrow> 'a ndarray \<Rightarrow> pynum list \<Rightarrow> 'a split_writers \<Rightarrow> error + 'a split_writers" where
  "emit_sample validation_indices sample labels st =
     (if current_sample st \<in> set validation_indices
      then bind_err (DEAPWriterBuffer_write_example sample labels (test_writer st))
             (\<lambda>b. Inr (st\<lparr> test_writer := b, current_sample := current_sample st + 1 \<rparr>))
      else bind_err (DEAPWriterBuffer_write_example sample labels (train_writer st))
             (\<lambda>b. Inr (st\<lparr> train_writer := b, current_sample := current_sample st + 1 \<rparr>)))"

text \<open>
  The loop of lines 501 to 508. A loop that can raise part-way returns the exception
  (if any) together with the state reached, since the writers are flushed and closed
  afterwards in either case.
\<close>

fun emit_samples ::
  "string \<Rightarrow> string option \<Rightarrow> nat list \<Rightarrow> pynum list \<Rightarrow> 'a ndarray list \<Rightarrow>
   'a split_writers \<Rightarrow> error option \<times> 'a split_writers" where
  "emit_samples axes_order processing validation_indices labels [] st = (None, st)"
| "emit_samples axes_order processing validation_indices labels (sample # rest) st =
     (let sample' = (if axes_order = ''sensors-first'' \<and> processing \<noteq> Some ''fft''
                     then swapaxes01 sample else sample)
      in case emit_sample validation_indices sample' labels st of
           Inl e \<Rightarrow> (Some e, st)
         | Inr st' \<Rightarrow> emit_samples axes_order processing validation_indices labels rest st')"

text \<open>
  The samples of one experiment (lines 475, 476 and 487 to 499): the channel slice when
  a processing is configured, the windows, and the transform. \<open>experiment_data\<close> is
  \<open>[time][channel]\<close>, so \<^verbatim>\<open>experiment_data[:, :32]\<close> keeps 32 entries of every row.
\<close>

definition experiment_samples ::
  "'a transforms \<Rightarrow> string option \<Rightarrow> nat option list list \<Rightarrow> 'a list list \<Rightarrow>
   error + 'a ndarray list" where
  "experiment_samples ext processing target_windows experiment_data =
     (let experiment_data =
            (if processing \<noteq> None then map (take 32) experiment_data else experiment_data)
      in bind_err (split_with_windows experiment_data target_windows) (\<lambda>split_experiment_data.
           Inr (if processing = Some ''wavelet'' then map (dwt_alpha ext) split_experiment_data
                else if processing = Some ''fft''
                  then map (\<lambda>a. fft ext (transpose a)) split_experiment_data
                else map A2 split_experiment_data)))"

definition process_experiment ::
  "'a transforms \<Rightarrow> LabelTransformer \<Rightarrow> rat list list \<Rightarrow> nat list \<Rightarrow> nat option list list \<Rightarrow>
   string \<Rightarrow> string option \<Rightarrow> nat \<Rightarrow> 'a list list \<Rightarrow> 'a split_writers \<Rightarrow>
   error option \<times> 'a split_writers" where
  "process_experiment ext label_transformer labels validation_indices target_windows
       axes_order processing experiment experiment_data st =
     (case bind_err (index labels experiment) (\<lambda>experiment_labels.
             bind_err (transform_labels label_transformer experiment_labels True)
               (\<lambda>transformed_labels.
             bind_err (experiment_samples ext processing target_windows experiment_data)
               (\<lambda>split_experiment_data. Inr (transformed_labels, split_experiment_data)))) of
        Inl e \<Rightarrow> (Some e, st)
      | Inr (LabelDict d, split_experiment_data) \<Rightarrow> (Some TypeError, st)
      | Inr (LabelArray transformed_labels, split_experiment_data) \<Rightarrow>
          emit_samples axes_order processing validation_indices transformed_labels
            split_experiment_data st)"

fun experiments_loop ::
  "(nat \<Rightarrow> 'a list list \<Rightarrow> 's \<Rightarrow> error option \<times> 's) \<Rightarrow> (nat \<times> 'a list list) list \<Rightarrow> 's \<Rightarrow>
   error option \<times> 's" where
  "experiments_loop body [] st = (None, st)"
| "experiments_loop body ((experiment, experiment_data) # rest) st =
     (case body experiment experiment_data st of
        (Some e, st') \<Rightarrow> (Some e, st')
      | (None, st') \<Rightarrow> experiments_loop body rest st')"

text \<open>
  \<^verbatim>\<open>process_file_subject_dependent\<close>. The arguments \<^verbatim>\<open>target_directory\<close> and
  \<^verbatim>\<open>data_frequency\<close> are not used by the function and are left out.
\<close>

definition process_file_subject_dependent ::
  "'a transforms \<Rightarrow> (string \<Rightarrow> 'a recording option) \<Rightarrow> string \<Rightarrow> nat list \<Rightarrow>
   nat option list list \<Rightarrow> int \<Rightarrow> nat \<times> nat \<times> nat \<times> nat \<Rightarrow> string \<Rightarrow> string option \<Rightarrow>
   'a split_writers \<Rightarrow> error option \<times> 'a split_writers" where
  "process_file_subject_dependent ext fs in_file validation_indices target_windows
       trim_samples num_classes axes_order processing st =
     (case unpickle fs in_file of
        Inl e \<Rightarrow> (Some e, st)
      | Inr (data, labels) \<Rightarrow>
          (case num_classes of (valence, arousal, dominance, liking) \<Rightarrow>
             let data = map transpose data;
                 label_transformer =
                   LabelTransformer_init valence arousal dominance liking
                     [''valence'', ''arousal'', ''dominance'', ''liking''];
                 data = (if trim_samples > 0 then map (drop (nat trim_samples)) data else data)
             in experiments_loop
                  (process_experiment ext label_transformer labels validation_indices
                     target_windows axes_order processing)
                  (enumerate 0 data) st))"

section \<open>process_file\<close>

text \<open>
  \<^verbatim>\<open>np.split(a, sections, axis=0)\<close> into equal parts: \<open>N % sections\<close> raises
  ZeroDivisionError for no sections, and an uneven division raises ValueError.
\<close>

definition np_split :: "'a list \<Rightarrow> nat \<Rightarrow> error + 'a list list" where
  "np_split xs sections =
     (if sections = 0 then Inl ZeroDivisionError
      else if length xs mod sections \<noteq> 0
        then Inl (ValueError ''array split does not result in an equal division'')
      else Inr (map (\<lambda>i. take (length xs div sections) (drop (i * (length xs div sections)) xs))
                  [0..<sections]))"

text \<open>The loop of lines 391 to 394.\<close>

fun write_samples ::
  "string \<Rightarrow> (string \<times> pynum) list \<Rightarrow> 'a list list list \<Rightarrow> 'a DEAPWriter \<Rightarrow>
   error option \<times> 'a DEAPWriter" where
  "write_samples axes_order labels [] dw = (None, dw)"
| "write_samples axes_order labels (sample # rest) dw =
     (let sample' = (if axes_order = ''sensors-first'' then swapaxes01 (A2 sample) else A2 sample)
      in case DEAPWriter_write_example sample' labels dw of
           Inl e \<Rightarrow> (Some e, dw)
         | Inr dw' \<Rightarrow> write_samples axes_order labels rest dw')"

text \<open>
  The body of the \<^verbatim>\<open>own\<close> loop (lines 380 to 394). \<open>labels\<close> is the label array as
  it was unpickled: \<^verbatim>\<open>np.random.shuffle(data)\<close> reorders the trials of \<open>data\<close> only.
  \<open>shuffle\<close> is the draw of \<^verbatim>\<open>random.shuffle\<close> for this experiment.
\<close>

definition own_experiment ::
  "LabelTransformer \<Rightarrow> rat list list \<Rightarrow> nat \<Rightarrow> (nat \<Rightarrow> nat \<Rightarrow> nat list) \<Rightarrow> string \<Rightarrow>
   nat \<Rightarrow> 'a list list \<Rightarrow> 'a DEAPWriter \<Rightarrow> error option \<times> 'a DEAPWriter" where
  "own_experiment label_transformer labels target_splits shuffle axes_order
       experiment experiment_data dw =
     (case bind_err (index labels experiment) (\<lambda>experiment_labels.
             bind_err (transform_labels label_transformer experiment_labels False)
               (\<lambda>transformed_labels.
             bind_err (np_split experiment_data target_splits) (\<lambda>split_experiment_data.
             bind_err (take_indices split_experiment_data
                         (shuffle experiment (length split_experiment_data)))
               (\<lambda>shuffled. Inr (transformed_labels, shuffled))))) of
        Inl e \<Rightarrow> (Some e, dw)
      | Inr (LabelArray a, shuffled) \<Rightarrow> (Some (AttributeError ''keys''), dw)
      | Inr (LabelDict transformed_labels, shuffled) \<Rightarrow>
          write_samples axes_order transformed_labels shuffled dw)"

text \<open>The body of the \<^verbatim>\<open>tripathi\<close> loop (lines 432 to 435).\<close>

definition tripathi_experiment ::
  "LabelTransformer \<Rightarrow> rat list list \<Rightarrow> nat \<Rightarrow> 'a list list \<Rightarrow> 'a DEAPWriter \<Rightarrow>
   error option \<times> 'a DEAPWriter" where
  "tripathi_experiment label_transformer labels experiment features dw =
     (case bind_err (index labels experiment) (\<lambda>experiment_labels.
             transform_labels label_transformer experiment_labels False) of
        Inl e \<Rightarrow> (Some e, dw)
      | Inr (LabelArray a) \<Rightarrow> (Some (AttributeError ''keys''), dw)
      | Inr (LabelDict transformed_labels) \<Rightarrow>
          (case DEAPWriter_write_example (A2 features) transformed_labels dw of
             Inl e \<Rightarrow> (Some e, dw)
           | Inr dw' \<Rightarrow> (None, dw')))"

text \<open>
  \<^verbatim>\<open>process_file\<close>. \<open>progress_bar\<close> tells whether a progress bar object was passed
  (\<^verbatim>\<open>process_directory\<close> passes \<open>None\<close>, on which \<^verbatim>\<open>write\<close> raises AttributeError).
  \<open>shuffle_trials\<close> and \<open>shuffle_windows\<close> are the draws of \<^verbatim>\<open>np.random.shuffle\<close> and
  \<^verbatim>\<open>random.shuffle\<close> for this file.
\<close>

definition process_file ::
  "'a transforms \<Rightarrow> (string \<Rightarrow> 'a recording option) \<Rightarrow> (nat \<Rightarrow> nat list) \<Rightarrow>
   (nat \<Rightarrow> nat \<Rightarrow> nat list) \<Rightarrow> string \<Rightarrow> 'a DEAPWriter \<Rightarrow> string \<Rightarrow> int \<Rightarrow> nat \<Rightarrow> nat \<Rightarrow>
   nat \<times> nat \<times> nat \<times> nat \<Rightarrow> bool \<Rightarrow> string \<Rightarrow> error option \<times> 'a DEAPWriter" where
  "process_file ext fs shuffle_trials shuffle_windows pickle_file dw method trim_samples
       file_id target_splits num_classes progress_bar axes_order =
     (case unpickle fs pickle_file of
        Inl e \<Rightarrow> (Some e, dw)
      | Inr (data, labels) \<Rightarrow>
          (case num_classes of (valence, arousal, dominance, liking) \<Rightarrow>
             let data = map transpose data;
                 label_transformer =
                   LabelTransformer_init valence arousal dominance liking
                     [''valence'', ''arousal'', ''dominance'', ''liking''];
                 data = (if trim_samples > 0 then map (drop (nat trim_samples)) data else data);
                 num_experiments = length data
             in if method = ''own'' then
                  (case take_indices data (shuffle_trials num_experiments) of
                     Inl e \<Rightarrow> (Some e, dw)
                   | Inr shuffled \<Rightarrow>
                       experiments_loop
                         (own_experiment label_transformer labels target_splits
                            shuffle_windows axes_order)
                         (enumerate 0 shuffled) dw)
                else if method = ''tripathi'' then
                  (if \<not> progress_bar then (Some (AttributeError ''write''), dw)
                   else
                     (case take_indices (tripathi_features ext data file_id)
                             (shuffle_trials num_experiments) of
                        Inl e \<Rightarrow> (Some e, dw)
                      | Inr concat_features \<Rightarrow>
                          experiments_loop (tripathi_experiment label_transformer labels)
                            (enumerate 0 concat_features) dw))
                else (Some (ValueError ''Unsupported method''), dw)))"

section \<open>process_directory\<close>

text \<open>
  The outcome of a run: the directories listed, the files unpickled, the record writers
  opened (with their records, after \<^verbatim>\<open>__exit__\<close>), the manifest written and the
  exception that ended the run, if any.
\<close>

record manifest =
  timestep :: int
  meta_trim_samples :: int
  meta_mode :: string
  meta_num_classes :: "nat \<times> nat \<times> nat \<times> nat"
  meta_label_names :: "string list"
  manifest_shape :: "nat list"
  files_train :: "string list"
  files_test :: "string list"
  files_validation_split :: rat
  files_available :: "int \<times> int \<times> int"

record 'a run =
  listed :: "string list"
  loaded :: "string list"
  record_files :: "'a DEAPWriter list"
  meta_json :: "(string \<times> manifest) option"
  raised :: "error option"

text \<open>
  The local variables that the two mode blocks bind and the lines after them read; a
  variable that no block has bound is \<open>None\<close>.
\<close>

record locals =
  train_names :: "string list option"
  test_names :: "string list option"
  records_available :: "(int \<times> int \<times> int) option"
  shape_var :: "nat list option"

record 'a pass =
  pass_raised :: "error option"
  pass_loaded :: "string list"
  pass_files :: "'a DEAPWriter list"
  pass_locals :: locals

definition unbound :: locals where
  "unbound = \<lparr> train_names = None, test_names = None, records_available = None,
               shape_var = None \<rparr>"

definition write_config ::
  "int \<Rightarrow> int \<Rightarrow> string \<Rightarrow> nat \<times> nat \<times> nat \<times> nat \<Rightarrow> string list \<Rightarrow> nat list \<Rightarrow>
   string list \<times> string list \<times> rat \<times> (int \<times> int \<times> int) \<Rightarrow> string \<Rightarrow> string \<times> manifest" where
  "write_config ts trim md classes names sh files destination_dir =
     (case files of (train, test, split, available) \<Rightarrow>
        (path_join destination_dir ''meta.json'',
         \<lparr> timestep = ts, meta_trim_samples = trim, meta_mode = md,
           meta_num_classes = classes, meta_label_names = names, manifest_shape = sh,
           files_train = train, files_test = test, files_validation_split = split,
           files_available = available \<rparr>))"

text \<open>
  Lines 218 to 225: the number of validation samples is
  \<^verbatim>\<open>int(total_number_available * validation_split)\<close>, and the validation indices are
  drawn without replacement. \<^verbatim>\<open>np.random.choice\<close> raises ValueError for an empty
  population with a non-empty sample, for a negative size and for a size above the
  population.
\<close>

definition num_validation :: "nat \<Rightarrow> rat \<Rightarrow> int" where
  "num_validation total_number_available validation_split =
     py_int (of_nat total_number_available * validation_split)"

definition random_choice :: "rng \<Rightarrow> nat \<Rightarrow> int \<Rightarrow> error + nat list" where
  "random_choice r a sz =
     (if a = 0 \<and> sz \<noteq> 0
        then Inl (ValueError ''a must be greater than 0 unless no samples are taken'')
      else if sz < 0 then Inl (ValueError ''negative dimensions are not allowed'')
      else if int a < sz
        then Inl (ValueError ''Cannot take a larger sample than population'')
      else Inr (choice r a (nat sz)))"

text \<open>The loop over the files of the subject-dependent pass (lines 243 to 254).\<close>

fun dependent_files ::
  "'a transforms \<Rightarrow> (string \<Rightarrow> 'a recording option) \<Rightarrow> string \<Rightarrow> nat list \<Rightarrow>
   nat option list list \<Rightarrow> int \<Rightarrow> nat \<times> nat \<times> nat \<times> nat \<Rightarrow> string option \<Rightarrow> string list \<Rightarrow>
   'a split_writers \<times> string list \<Rightarrow> error option \<times> 'a split_writers \<times> string list" where
  "dependent_files ext fs input_dir validation_indices windows trim_samples num_classes
       processing [] (st, ld) = (None, st, ld)"
| "dependent_files ext fs input_dir validation_indices windows trim_samples num_classes
       processing (file # rest) (st, ld) =
     (let abs_file = path_join input_dir file
      in case process_file_subject_dependent ext fs abs_file validation_indices windows
                trim_samples num_classes ''sensors-first'' processing st of
           (Some e, st') \<Rightarrow> (Some e, st', ld @ [abs_file])
         | (None, st') \<Rightarrow>
             dependent_files ext fs input_dir validation_indices windows trim_samples
               num_classes processing rest (st', ld @ [abs_file]))"

text \<open>
  \<^verbatim>\<open>DEAPWriterBuffer.__exit__\<close> flushes, whether or not the block raised; an exception
  of the flush replaces the pending one.
\<close>

definition DEAPWriterBuffer_exit ::
  "nat list \<Rightarrow> error option \<Rightarrow> 'a DEAPWriterBuffer \<Rightarrow> error option \<times> 'a DEAPWriterBuffer" where
  "DEAPWriterBuffer_exit permutation pending self =
     (case flush_buffer permutation self of
        Inl e \<Rightarrow> (Some e, self)
      | Inr self' \<Rightarrow> (pending, self'))"

text \<open>
  The block \<^verbatim>\<open>if mode == 'subject-dependent'\<close> (lines 218 to 258). The buffers leave
  their \<^verbatim>\<open>with\<close> block in reverse order, the test buffer first; the writers are the
  ones the buffers hold, and are closed when the outer block is left.
\<close>

definition subject_dependent_block ::
  "'a::zero transforms \<Rightarrow> (string \<Rightarrow> 'a recording option) \<Rightarrow> rng \<Rightarrow> string \<Rightarrow> string list \<Rightarrow>
   string list \<Rightarrow> nat option list list \<Rightarrow> int \<Rightarrow> int \<Rightarrow> rat \<Rightarrow> nat \<times> nat \<times> nat \<times> nat \<Rightarrow> nat \<Rightarrow>
   string option \<Rightarrow> 'a pass" where
  "subject_dependent_block ext fs r input_dir out_names file_list windows samples_per_chunk
       trim_samples validation_split num_classes num_experiments processing =
     (let num_subjects = length (filter (contains ''.dat'') file_list);
          total_number_available = num_subjects * num_experiments * length windows;
          n_validation = num_validation total_number_available validation_split;
          num_training = int total_number_available - n_validation
      in case random_choice r total_number_available n_validation of
           Inl e \<Rightarrow> \<lparr> pass_raised = Some e, pass_loaded = [], pass_files = [],
                      pass_locals = unbound \<rparr>
         | Inr validation_indices \<Rightarrow>
             let trains = filter (contains ''train'') out_names;
                 tests = filter (contains ''test'') out_names;
                 names = unbound\<lparr> train_names := Some trains, test_names := Some tests \<rparr>;
                 train_dw = DEAPWriter_enter (DEAPWriter_init trains);
                 test_dw = DEAPWriter_enter (DEAPWriter_init tests);
                 data_shape = (40, nat samples_per_chunk)
             in case bind_err (DEAPWriterBuffer_init train_dw data_shape 4 num_training)
                       (\<lambda>tb. bind_err (DEAPWriterBuffer_init test_dw data_shape 4 n_validation)
                          (\<lambda>vb. Inr (tb, vb))) of
                  Inl e \<Rightarrow>
                    \<lparr> pass_raised = Some e, pass_loaded = [],
                      pass_files = [DEAPWriter_exit train_dw, DEAPWriter_exit test_dw],
                      pass_locals = names \<rparr>
                | Inr (tb, vb) \<Rightarrow>
                    (case dependent_files ext fs input_dir validation_indices windows
                            trim_samples num_classes processing file_list
                            (\<lparr> train_writer = tb, test_writer = vb, current_sample = 0 \<rparr>, []) of
                       (err, st, ld) \<Rightarrow>
                         (case DEAPWriterBuffer_exit
                                 (test_permutation r (collected (test_writer st))) err
                                 (test_writer st) of
                            (err1, vb') \<Rightarrow>
                         (case DEAPWriterBuffer_exit
                                 (train_permutation r (collected (train_writer st))) err1
                                 (train_writer st) of
                            (err2, tb') \<Rightarrow>
                              let files = [DEAPWriter_exit (writer tb'),
                                           DEAPWriter_exit (writer vb')]
                              in case err2 of
                                   Some e \<Rightarrow>
                                     \<lparr> pass_raised = Some e, pass_loaded = ld, pass_files = files,
                                       pass_locals = names \<rparr>
                                 | None \<Rightarrow>
                                     (case shape (writer tb') of
                                        None \<Rightarrow>
                                          \<lparr> pass_raised = Some (AttributeError ''shape''),
                                            pass_loaded = ld, pass_files = files,
                                            pass_locals = names \<rparr>
                                      | Some sh \<Rightarrow>
                                          \<lparr> pass_raised = None, pass_loaded = ld,
                                            pass_files = files,
                                            pass_locals = names
                                              \<lparr> shape_var := Some sh,
                                                records_available :=
                                                  Some (int total_number_available - n_validation,
                                                        n_validation,
                                                        int total_number_available) \<rparr> \<rparr>)))))"

text \<open>
  The loop over the files of the subject-independent pass (lines 268 to 287): one
  writer per input file, \<^verbatim>\<open>method='own'\<close>, no progress bar.
\<close>

fun independent_files ::
  "'a transforms \<Rightarrow> (string \<Rightarrow> 'a recording option) \<Rightarrow> rng \<Rightarrow> string \<Rightarrow> string list \<Rightarrow>
   int \<Rightarrow> nat \<Rightarrow> nat \<times> nat \<times> nat \<times> nat \<Rightarrow> (nat \<times> string) list \<Rightarrow> 'a pass \<Rightarrow> 'a pass" where
  "independent_files ext fs r input_dir out_names trim_samples target_splits num_classes
       [] acc = acc"
| "independent_files ext fs r input_dir out_names trim_samples target_splits num_classes
       ((file_id, file) # rest) acc =
     (let abs_file = path_join input_dir file
      in case index out_names file_id of
           Inl e \<Rightarrow> acc\<lparr> pass_raised := Some e \<rparr>
         | Inr tffile \<Rightarrow>
             (case process_file ext fs (trial_shuffle r file_id) (window_shuffle r file_id)
                     abs_file (DEAPWriter_enter (DEAPWriter_init [tffile])) ''own''
                     trim_samples file_id target_splits num_classes False ''sensors-first'' of
                (err, dw) \<Rightarrow>
                  let acc' = acc\<lparr> pass_loaded := pass_loaded acc @ [abs_file],
                                  pass_files := pass_files acc @ [DEAPWriter_exit dw] \<rparr>
                  in case err of
                       Some e \<Rightarrow> acc'\<lparr> pass_raised := Some e \<rparr>
                     | None \<Rightarrow>
                         (case shape dw of
                            None \<Rightarrow> acc'\<lparr> pass_raised := Some (AttributeError ''shape'') \<rparr>
                          | Some sh \<Rightarrow>
                              independent_files ext fs r input_dir out_names trim_samples
                                target_splits num_classes rest
                                (acc'\<lparr> pass_locals := (pass_locals acc')
                                         \<lparr> shape_var := Some sh \<rparr> \<rparr>))))"

text \<open>The block \<^verbatim>\<open>if mode == 'subject-independent'\<close> (lines 261 to 291).\<close>

definition subject_independent_block ::
  "'a transforms \<Rightarrow> (string \<Rightarrow> 'a recording option) \<Rightarrow> rng \<Rightarrow> string \<Rightarrow> string list \<Rightarrow>
   string list \<Rightarrow> nat option list list \<Rightarrow> int \<Rightarrow> rat \<Rightarrow> nat \<times> nat \<times> nat \<times> nat \<Rightarrow> nat \<Rightarrow> 'a pass" where
  "subject_independent_block ext fs r input_dir out_names file_list windows trim_samples
       validation_split num_classes num_experiments =
     (let file_list = sort file_list;
          available_per_file = int (length windows * num_experiments);
          num_test_files = py_round (validation_split * of_nat (length file_list));
          num_train_files = int (length file_list) - num_test_files
      in case map_err (index out_names)
                (filter (\<lambda>i. int i < num_test_files) [0..<length file_list]) of
           Inl e \<Rightarrow> \<lparr> pass_raised = Some e, pass_loaded = [], pass_files = [],
                      pass_locals = unbound \<rparr>
         | Inr tests \<Rightarrow>
             let trains = filter (\<lambda>x. x \<notin> set tests) out_names;
                 names = unbound\<lparr> train_names := Some trains, test_names := Some tests \<rparr>;
                 res = independent_files ext fs r input_dir out_names trim_samples
                          (length windows) num_classes (enumerate 0 file_list)
                          \<lparr> pass_raised = None, pass_loaded = [], pass_files = [],
                            pass_locals = names \<rparr>
             in case pass_raised res of
                  Some e \<Rightarrow> res
                | None \<Rightarrow>
                    res\<lparr> pass_locals := (pass_locals res)
                            \<lparr> records_available :=
                                Some (available_per_file * num_train_files,
                                      available_per_file * num_test_files,
                                      available_per_file
                                        * (num_test_files + num_train_files)) \<rparr> \<rparr>)"

text \<open>
  Lines 293 to 307, after the two mode blocks: the file dict reads \<^verbatim>\<open>train_names\<close>,
  \<^verbatim>\<open>test_names\<close> and \<^verbatim>\<open>records_available\<close>, and the call of \<^verbatim>\<open>write_config\<close> reads
  \<^verbatim>\<open>shape\<close>. Reading a local variable that was never bound raises UnboundLocalError.
\<close>

definition write_manifest ::
  "int \<Rightarrow> int \<Rightarrow> string \<Rightarrow> nat \<times> nat \<times> nat \<times> nat \<Rightarrow> rat \<Rightarrow> string \<Rightarrow> locals \<Rightarrow>
   error + string \<times> manifest" where
  "write_manifest samples_per_chunk trim_samples mode num_classes validation_split
       target_directory vars =
     (case train_names vars of
        None \<Rightarrow> Inl (UnboundLocalError ''train_names'')
      | Some trains \<Rightarrow>
     (case test_names vars of
        None \<Rightarrow> Inl (UnboundLocalError ''test_names'')
      | Some tests \<Rightarrow>
     (case records_available vars of
        None \<Rightarrow> Inl (UnboundLocalError ''records_available'')
      | Some available \<Rightarrow>
     (case shape_var vars of
        None \<Rightarrow> Inl (UnboundLocalError ''shape'')
      | Some sh \<Rightarrow>
          Inr (write_config samples_per_chunk trim_samples mode num_classes
                 [''valence'', ''arousal'', ''dominance'', ''liking''] sh
                 (trains, tests, validation_split, available) target_directory)))))"

text \<open>
  \<^verbatim>\<open>process_directory\<close>. \<open>listdir\<close> is the directory listing of the environment.
  \<open>window_step\<close> is \<open>None\<close> or a number of seconds.
\<close>

definition process_directory ::
  "'a::zero transforms \<Rightarrow> (string \<Rightarrow> string list option) \<Rightarrow> (string \<Rightarrow> 'a recording option) \<Rightarrow>
   rng \<Rightarrow> string \<Rightarrow> string \<Rightarrow> string list \<Rightarrow> string \<Rightarrow> rat \<Rightarrow> int \<Rightarrow> rat \<Rightarrow>
   nat \<times> nat \<times> nat \<times> nat \<Rightarrow> nat \<Rightarrow> string option \<Rightarrow> pynum option \<Rightarrow> 'a run" where
  "process_directory ext listdir fs r input_dir target_directory out_names mode
       target_seconds trim_samples validation_split num_classes num_experiments processing
       window_step =
     (case listdir input_dir of
        None \<Rightarrow> \<lparr> listed = [], loaded = [], record_files = [], meta_json = None,
                   raised = Some (FileNotFound input_dir) \<rparr>
      | Some file_list \<Rightarrow>
          let samples_per_chunk = py_int (128 * target_seconds);
              step_samples = (case window_step of
                                Some ws \<Rightarrow> 128 * num_val ws
                              | None \<Rightarrow> of_int samples_per_chunk);
              total_samples_per_experiment = 63 * 128 - trim_samples
          in case windowed [0..<nat total_samples_per_experiment] samples_per_chunk
                    step_samples of
               Inl e \<Rightarrow> \<lparr> listed = [input_dir], loaded = [], record_files = [],
                          meta_json = None, raised = Some e \<rparr>
             | Inr windows \<Rightarrow>
                 let p = (if mode = ''subject-dependent''
                          then subject_dependent_block ext fs r input_dir out_names file_list
                                 windows samples_per_chunk trim_samples validation_split
                                 num_classes num_experiments processing
                          else if mode = ''subject-independent''
                          then subject_independent_block ext fs r input_dir out_names
                                 file_list windows trim_samples validation_split num_classes
                                 num_experiments
                          else \<lparr> pass_raised = None, pass_loaded = [], pass_files = [],
                                 pass_locals = unbound \<rparr>)
                 in case pass_raised p of
                      Some e \<Rightarrow> \<lparr> listed = [input_dir], loaded = pass_loaded p,
                                  record_files = pass_files p, meta_json = None,
                                  raised = Some e \<rparr>
                    | None \<Rightarrow>
                        (case write_manifest samples_per_chunk trim_samples mode num_classes
                                validation_split target_directory (pass_locals p) of
                           Inl e \<Rightarrow> \<lparr> listed = [input_dir], loaded = pass_loaded p,
                                      record_files = pass_files p, meta_json = None,
                                      raised = Some e \<rparr>
                         | Inr m \<Rightarrow> \<lparr> listed = [input_dir], loaded = pass_loaded p,
                                      record_files = pass_files p, meta_json = Some m,
                                      raised = None \<rparr>))"

section \<open>Notions used in the properties\<close>

text \<open>The \<open>i\<close>-th breakpoint of the table with \<open>n\<close> classes over \<open>[1, 9]\<close>.\<close>

definition brk :: "nat \<Rightarrow> nat \<Rightarrow> rat" where
  "brk n i = 1 + of_nat i * (8 / of_nat n)"

text \<open>
  The contract of \<^verbatim>\<open>np.random.choice(a, size, replace=False)\<close>, and the elements of a
  list whose running number, counted from \<open>c\<close>, satisfies \<open>P\<close>.
\<close>

definition choice_contract :: "nat \<Rightarrow> nat \<Rightarrow> nat list \<Rightarrow> bool" where
  "choice_contract a n xs \<longleftrightarrow> length xs = n \<and> distinct xs \<and> list_all (\<lambda>x. x < a) xs"

fun counted :: "(nat \<Rightarrow> bool) \<Rightarrow> nat \<Rightarrow> 'b list \<Rightarrow> 'b list" where
  "counted P c [] = []"
| "counted P c (x # xs) = (if P c then x # counted P (Suc c) xs else counted P (Suc c) xs)"

text \<open>
  For the subject-independent pass: the trials after \<^verbatim>\<open>swapaxes\<close> and trimming, the
  equal parts of \<^verbatim>\<open>np.split\<close>, a sample in the axis order asked for, and the samples
  of a list of numbered trials when the samples of trial slot \<open>e\<close> are taken in the order
  \<open>shuffle_windows e k\<close>; \<open>own_records\<close> pairs each of them with the label dict
  \<open>ld e\<close> of its slot.
\<close>

definition prepared :: "int \<Rightarrow> 'a list list list \<Rightarrow> 'a list list list" where
  "prepared trim_samples data =
     (if trim_samples > 0 then map (drop (nat trim_samples)) (map transpose data)
      else map transpose data)"


definition oriented :: "string \<Rightarrow> 'a list list \<Rightarrow> 'a ndarray" where
  "oriented axes_order sample =
     (if axes_order = ''sensors-first'' then swapaxes01 (A2 sample) else A2 sample)"



text \<open>
  The state \<open>st'\<close> that the two buffers and the counter of \<open>st\<close> reach when the pairs
  \<open>ps\<close> are numbered from the counter on, those with a number among the validation
  indices are appended to the test buffer, and the others to the train buffer.
\<close>

definition routed ::
  "nat list \<Rightarrow> ('a ndarray \<times> pynum list) list \<Rightarrow> 'a split_writers \<Rightarrow> 'a split_writers \<Rightarrow> bool" where
  "routed vi ps st st' \<longleftrightarrow>
     (\<exists>tb vb.
        buffer_examples (counted (\<lambda>i. i \<in> set vi) (current_sample st) ps) (test_writer st)
          = Inr vb \<and>
        buffer_examples (counted (\<lambda>i. i \<notin> set vi) (current_sample st) ps) (train_writer st)
          = Inr tb \<and>
        st' = st\<lparr> train_writer := tb, test_writer := vb,
                  current_sample := current_sample st + length ps \<rparr>)"

text \<open>
  The rows of a window: for every position \<open>i\<close> of the window, the values of the given
  channels at the time \<open>trim + i\<close>. \<open>built\<close> is the sample made of such rows: the
  wavelet coefficients or the spectrogram of the rows when one is configured, the rows
  themselves otherwise, in the axis order asked for. \<open>trial_pairs\<close> are the samples of
  the windows \<open>idxs\<close> of one trial (a list of channels), in the order of the windows,
  each paired with the label vector \<open>l\<close>: the rows hold the first 32 channels of the
  trial when a processing is configured, and all of its channels when none is.
  \<open>recording_pairs\<close> are those of the trials of one recording, in the order of the
  trials, trial \<open>e\<close> with the label vector \<open>binned e\<close>.
\<close>

definition window_rows :: "nat \<Rightarrow> 'a list list \<Rightarrow> nat list \<Rightarrow> 'a list list" where
  "window_rows trim channels w = map (\<lambda>i. map (\<lambda>channel. channel ! (trim + i)) channels) w"

definition built :: "'a transforms \<Rightarrow> string \<Rightarrow> string option \<Rightarrow> 'a list list \<Rightarrow> 'a ndarray" where
  "built ext axes_order processing rows =
     (if processing = Some ''wavelet''
        then (if axes_order = ''sensors-first'' then swapaxes01 (dwt_alpha ext rows)
              else dwt_alpha ext rows)
      else if processing = Some ''fft'' then fft ext (transpose rows)
      else oriented axes_order rows)"

definition trial_pairs ::
  "'a transforms \<Rightarrow> string \<Rightarrow> string option \<Rightarrow> nat \<Rightarrow> nat list list \<Rightarrow> pynum list \<Rightarrow>
   'a list list \<Rightarrow> ('a ndarray \<times> pynum list) list" where
  "trial_pairs ext axes_order processing trim idxs l trial =
     map (\<lambda>w. (built ext axes_order processing
                  (window_rows trim (if processing = None then trial else take 32 trial) w),
                l)) idxs"

definition recording_pairs ::
  "'a transforms \<Rightarrow> string \<Rightarrow> string option \<Rightarrow> nat \<Rightarrow> nat list list \<Rightarrow> (nat \<Rightarrow> pynum list) \<Rightarrow>
   'a list list list \<Rightarrow> ('a ndarray \<times> pynum list) list" where
  "recording_pairs ext axes_order processing trim idxs binned data =
     concat (map (\<lambda>(e, trial). trial_pairs ext axes_order processing trim idxs (binned e) trial)
               (enumerate 0 data))"

text \<open>
  A label dict of integers, and the record that \<^verbatim>\<open>serialize_example\<close> returns for a
  sample with such a dict.
\<close>

definition int_labels :: "(string \<times> pynum) list \<Rightarrow> bool" where
  "int_labels labels \<longleftrightarrow> list_all (\<lambda>kv. PInt (int_cast (snd kv)) = snd kv) labels"

definition feature_dict :: "'a ndarray \<Rightarrow> (string \<times> pynum) list \<Rightarrow> 'a example" where
  "feature_dict data labels =
     fold (\<lambda>kv feature. AList.update (fst kv) (Int64Feature (int_cast (snd kv))) feature) labels
       [(''X'', NumpyFeature data)]"

text \<open>
  The writes that reach destination \<open>j\<close> among the first \<open>k\<close> writes to \<open>n\<close>
  destinations, and the state of a writer after the examples \<open>exs\<close> were written.
\<close>

definition served :: "nat \<Rightarrow> nat \<Rightarrow> nat \<Rightarrow> nat list" where
  "served n k j = filter (\<lambda>i. i mod n = j) [0..<k]"

definition rr_state ::
  "nat \<Rightarrow> ('a ndarray \<times> (string \<times> pynum) list) list \<Rightarrow> 'a DEAPWriter \<Rightarrow> bool" where
  "rr_state n exs w \<longleftrightarrow>
     (\<exists>ws. writers w = Some ws \<and> length ws = n \<and>
        writer_iterator w = length exs mod n \<and>
        length (records_processed w) = n \<and>
        (\<forall>j<n. records_processed w ! j = length (ws ! j)) \<and>
        (\<forall>j<n. ws ! j =
           map (\<lambda>i. feature_dict (fst (exs ! i)) (snd (exs ! i))) (served n (length exs) j)))"

text \<open>
  A pair that fits a buffer slot as it is: a two-dimensional sample of the slot's shape
  with one label per label slot. A label vector of class ids holds integers only, the
  element type of the label buffer. \<open>drained names ps permutation\<close> is the sequence of
  pairs \<open>ps\<close> taken in the order \<open>permutation\<close>, each sample with the label dict of its
  own label vector.
\<close>

definition fits_slot :: "nat \<times> nat \<Rightarrow> nat \<Rightarrow> 'a ndarray \<times> pynum list \<Rightarrow> bool" where
  "fits_slot sh llen p \<longleftrightarrow>
     (case fst p of
        A2 m \<Rightarrow> length m = fst sh \<and> list_all (\<lambda>r. length r = snd sh) m
      | A3 t \<Rightarrow> False) \<and>
     length (snd p) = llen"

fun matrix_of :: "'a ndarray \<Rightarrow> 'a list list" where
  "matrix_of (A2 m) = m"
| "matrix_of (A3 t) = concat t"

definition class_ids :: "pynum list \<Rightarrow> bool" where
  "class_ids l \<longleftrightarrow> list_all (\<lambda>v. PInt (int_cast v) = v) l"

definition drained ::
  "string list \<Rightarrow> ('a ndarray \<times> pynum list) list \<Rightarrow> nat list \<Rightarrow>
   ('a ndarray \<times> (string \<times> pynum) list) list" where
  "drained names ps permutation =
     map (\<lambda>i. (fst (ps ! i), dict_of (zip names (snd (ps ! i))))) permutation"

section \<open>Properties of the label binning\<close>

lemma linspace_breaks:
  assumes "1 \<le> n"
  shows "linspace 1 9 (Suc n) = map (brk n) [0..<Suc n]"
proof -
  have "brk n n = 9" using assms by (simp add: brk_def)
  then show ?thesis using assms by (simp add: linspace_def brk_def)
qed

lemma build_classes_eq:
  assumes "1 \<le> n"
  shows "build_classes n = map (\<lambda>i. (brk n i, brk n (Suc i))) [0..<n]"
proof -
  have bc: "build_classes n = zip (map (brk n) [0..<Suc n]) (tl (map (brk n) [0..<Suc n]))"
    using linspace_breaks[OF assms]
    by (simp add: build_classes_def build_classes_range_def Let_def del: upt_Suc)
  show ?thesis
  proof (rule nth_equalityI)
    show "length (build_classes n) = length (map (\<lambda>i. (brk n i, brk n (Suc i))) [0..<n])"
      unfolding bc by (simp del: upt_Suc)
  next
    fix i assume "i < length (build_classes n)"
    then have i: "i < n" unfolding bc by (simp del: upt_Suc)
    then show "build_classes n ! i = map (\<lambda>i. (brk n i, brk n (Suc i))) [0..<n] ! i"
      unfolding bc by (simp add: nth_tl del: upt_Suc)
  qed
qed

lemma scan_classes_nomatch:
  "\<forall>c \<in> set cs. \<not> (fst c \<le> v \<and> v < snd c) \<Longrightarrow>
   scan_classes v (enumerate k cs) mx =
     (PFloat v, if cs = [] then mx else Some (snd (last cs)))"
  by (induction cs arbitrary: k mx) auto

lemma scan_classes_match:
  "i < length cs \<Longrightarrow> fst (cs ! i) \<le> v \<Longrightarrow> v < snd (cs ! i) \<Longrightarrow>
   \<forall>j<i. \<not> (fst (cs ! j) \<le> v \<and> v < snd (cs ! j)) \<Longrightarrow>
   scan_classes v (enumerate k cs) mx = (PInt (int (k + i)), Some (snd (cs ! i)))"
proof (induction cs arbitrary: i k mx)
  case Nil
  then show ?case by simp
next
  case (Cons c cs)
  obtain lo hi where c: "c = (lo, hi)" by (cases c)
  show ?case
  proof (cases i)
    case 0
    with Cons.prems c show ?thesis by simp
  next
    case (Suc i')
    from Cons.prems(4) Suc have "\<not> (lo \<le> v \<and> v < hi)" using c by fastforce
    moreover have "scan_classes v (enumerate (Suc k) cs) (Some hi)
        = (PInt (int (Suc k + i')), Some (snd (cs ! i')))"
      using Cons.prems Suc by (intro Cons.IH) auto
    ultimately show ?thesis using c Suc by auto
  qed
qed

lemma brk_bounds: "1 \<le> n \<Longrightarrow> i \<le> n \<Longrightarrow> 1 \<le> brk n i \<and> brk n i \<le> 9"
proof -
  assume n: "1 \<le> n" and i: "i \<le> n"
  have "of_nat i * (8 / of_nat n) \<le> (of_nat n :: rat) * (8 / of_nat n)"
    using i n by (intro mult_right_mono) auto
  then show ?thesis using n by (simp add: brk_def)
qed

text \<open>
  What the classification returns inside the range. A value held by the interval of
  index \<open>i\<close> gets the class id \<open>i\<close>, provided the number \<open>i\<close> differs from the upper
  bound of that interval (or the interval is the last one); the maximum 9 gets the last
  class id. Up to 8 classes no class id equals the upper bound of its interval.
\<close>

lemma brk_mono: "1 \<le> n \<Longrightarrow> a \<le> b \<Longrightarrow> brk n a \<le> brk n b"
  unfolding brk_def by (intro add_left_mono mult_right_mono) auto

lemma transform_label_channel_in_range:
  assumes n: "1 \<le> n" and i: "i < n"
    and holds: "brk n i \<le> v" "v < brk n (Suc i)"
    and nocollide: "of_nat i = brk n (Suc i) \<longrightarrow> Suc i = n"
  shows "transform_label_channel_with_classes v (build_classes n) = Inr (PInt (int i))"
proof -
  let ?cs = "build_classes n"
  have cs: "?cs = map (\<lambda>i. (brk n i, brk n (Suc i))) [0..<n]"
    using n by (rule build_classes_eq)
  have len: "length ?cs = n" unfolding cs by simp
  have nth: "?cs ! j = (brk n j, brk n (Suc j))" if "j < n" for j
    unfolding cs using that by simp
  have before: "\<forall>j<i. \<not> (fst (?cs ! j) \<le> v \<and> v < snd (?cs ! j))"
  proof (intro allI impI)
    fix j assume j: "j < i"
    then have "brk n (Suc j) \<le> brk n i" using brk_mono[OF n, of "Suc j" i] by simp
    then show "\<not> (fst (?cs ! j) \<le> v \<and> v < snd (?cs ! j))"
      using holds(1) j i nth[of j] by simp
  qed
  have "scan_classes v (enumerate 0 ?cs) None = (PInt (int (0 + i)), Some (snd (?cs ! i)))"
    by (rule scan_classes_match) (use i len nth[OF i] holds before in auto)
  then have sc: "scan_classes v (enumerate 0 ?cs) None = (PInt (int i), Some (brk n (Suc i)))"
    using nth[OF i] by simp
  show ?thesis
  proof (cases "rat_of_nat i = brk n (Suc i)")
    case True
    then have "Suc i = n" using nocollide by simp
    then have "int (length ?cs) - 1 = int i" using len by simp
    then show ?thesis using sc True by (simp add: transform_label_channel_with_classes_def)
  next
    case False
    then show ?thesis using sc by (simp add: transform_label_channel_with_classes_def)
  qed
qed

lemma transform_label_channel_maximum:
  assumes n: "1 \<le> n"
  shows "transform_label_channel_with_classes 9 (build_classes n) = Inr (PInt (int n - 1))"
proof -
  let ?cs = "build_classes n"
  have cs: "?cs = map (\<lambda>i. (brk n i, brk n (Suc i))) [0..<n]"
    using n by (rule build_classes_eq)
  have nomatch: "\<forall>c \<in> set ?cs. \<not> (fst c \<le> 9 \<and> 9 < snd c)"
  proof
    fix c assume "c \<in> set ?cs"
    then obtain i where i: "i < n" and c: "c = (brk n i, brk n (Suc i))"
      unfolding cs by auto
    have "brk n (Suc i) \<le> 9" using brk_bounds[OF n, of "Suc i"] i by auto
    then show "\<not> (fst c \<le> 9 \<and> 9 < snd c)" using c by auto
  qed
  have ne: "?cs \<noteq> []" using n unfolding cs by auto
  have "last ?cs = (brk n (n - 1), brk n n)"
    using n unfolding cs by (simp add: last_map)
  moreover have "brk n n = 9" using n by (simp add: brk_def)
  ultimately have "scan_classes 9 (enumerate 0 ?cs) None = (PFloat 9, Some 9)"
    using scan_classes_nomatch[OF nomatch, of 0 None] ne by simp
  moreover have "length ?cs = n" unfolding cs by simp
  ultimately show ?thesis by (simp add: transform_label_channel_with_classes_def)
qed

lemma no_collision_up_to_eight:
  assumes "1 \<le> n" and "n \<le> 8" and "i < n"
  shows "rat_of_nat i \<noteq> brk n (Suc i)"
proof
  assume "rat_of_nat i = brk n (Suc i)"
  then have "rat_of_nat i * of_nat n = of_nat n + of_nat (Suc i) * 8"
    using assms(1) by (simp add: brk_def field_simps)
  then have "rat_of_nat (i * n) = rat_of_nat (n + Suc i * 8)" by simp
  then have e: "i * n = n + Suc i * 8" by (simp only: of_nat_eq_iff)
  have "i * n \<le> i * 8" using assms(2) by simp
  with e show False by simp
qed

text \<open>
  C1. Claim: every channel is binned with its own breakpoint table. The code passes
  \<^verbatim>\<open>self.valence_classes\<close> in all four calls. With class counts \<open>(2, 4, 2, 2)\<close> and the
  labels \<open>[5, 4, 5, 5]\<close> the arousal score 4 comes out as class 0 (the valence table
  \<open>[1, 5), [5, 9)\<close>), while the arousal table \<open>[1, 3), [3, 5), [5, 7), [7, 9)\<close> puts it in
  class 1.
\<close>

theorem transform_labels_bins_arousal_with_valence_table:
  "transform_labels
     (LabelTransformer_init 2 4 2 2 [''valence'', ''arousal'', ''dominance'', ''liking''])
     [5, 4, 5, 5] True
   = Inr (LabelArray [PInt 1, PInt 0, PInt 1, PInt 1]) \<and>
   transform_label_channel_with_classes 4
     (arousal_classes
        (LabelTransformer_init 2 4 2 2 [''valence'', ''arousal'', ''dominance'', ''liking'']))
   = Inr (PInt 1)"
  by code_simp

text \<open>
  C2. Claim: a value inside \<open>[1, 9]\<close> gets the index of the first interval that holds it.
  After a match the code stores the class id in \<^verbatim>\<open>label_channel\<close> and then still runs
  \<^verbatim>\<open>if label_channel == max_exclusive\<close>, which was meant for the input value 9 only. With
  16 classes the interval of index 3 is \<open>[5/2, 3)\<close>: its class id equals its upper bound,
  and the value \<open>11/4\<close> in it is sent to the last class, 15.
\<close>

theorem transform_label_channel_class_id_equals_upper_bound:
  "build_classes 16 ! 3 = (5 / 2, 3) \<and>
   transform_label_channel_with_classes (11 / 4) (build_classes 16) = Inr (PInt 15)"
  by code_simp

text \<open>
  C3. Claim: a value outside \<open>[1, 9]\<close> makes the classification fail. The code has no
  such check: no interval matches, the value differs from the last upper bound 9, and
  the input is returned as it came.
\<close>

theorem transform_label_channel_out_of_range_counterexample:
  "transform_label_channel_with_classes 10 (build_classes 2) = Inr (PFloat 10)"
  by code_simp

text \<open>
  C3, as the code behaves: with at least one class, every value below 1 or above 9 is
  returned unchanged and no error is raised.
\<close>

theorem transform_label_channel_out_of_range:
  assumes "1 \<le> n" and "v < 1 \<or> 9 < v"
  shows "transform_label_channel_with_classes v (build_classes n) = Inr (PFloat v)"
proof -
  let ?cs = "build_classes n"
  have cs: "?cs = map (\<lambda>i. (brk n i, brk n (Suc i))) [0..<n]"
    using assms(1) by (rule build_classes_eq)
  have nomatch: "\<forall>c \<in> set ?cs. \<not> (fst c \<le> v \<and> v < snd c)"
  proof
    fix c assume "c \<in> set ?cs"
    then obtain i where i: "i < n" and c: "c = (brk n i, brk n (Suc i))"
      unfolding cs by auto
    have "1 \<le> brk n i" "brk n (Suc i) \<le> 9"
      using brk_bounds[OF assms(1), of i] brk_bounds[OF assms(1), of "Suc i"] i by auto
    then show "\<not> (fst c \<le> v \<and> v < snd c)" using assms(2) c by auto
  qed
  have ne: "?cs \<noteq> []" using assms(1) unfolding cs by auto
  have "last ?cs = (brk n (n - 1), brk n n)"
    using assms(1) unfolding cs by (simp add: last_map)
  moreover have "brk n n = 9" using assms(1) by (simp add: brk_def)
  ultimately have "scan_classes v (enumerate 0 ?cs) None = (PFloat v, Some 9)"
    using scan_classes_nomatch[OF nomatch, of 0 None] ne by simp
  then show ?thesis using assms(2)
    by (auto simp: transform_label_channel_with_classes_def)
qed

theorem transform_label_channel_out_of_range_witness:
  "(1::nat) \<le> 4 \<and> ((0::rat) < 1 \<or> 9 < (0::rat)) \<and>
   transform_label_channel_with_classes 0 (build_classes 4) = Inr (PFloat 0)"
  using transform_label_channel_out_of_range [of 4 0] by simp

section \<open>Properties of the sharded writer\<close>

lemma bind_err_Inr [simp]: "bind_err (Inr x) f = f x"
  by (simp add: bind_err_def)

lemma bind_err_Inl [simp]: "bind_err (Inl e) f = Inl e"
  by (simp add: bind_err_def)

lemma write_examples_append:
  "write_examples (xs @ ys) w = bind_err (write_examples xs w) (write_examples ys)"
proof (induction xs arbitrary: w)
  case Nil
  then show ?case by simp
next
  case (Cons x xs)
  obtain d l where x: "x = (d, l)" by (cases x)
  show ?case
    by (cases "DEAPWriter_write_example d l w") (simp_all add: x Cons.IH)
qed

lemma served_Suc: "served n (Suc k) j = served n k j @ (if k mod n = j then [k] else [])"
  by (simp add: served_def)

lemma length_served:
  "0 < n \<Longrightarrow> j < n \<Longrightarrow> length (served n k j) = k div n + (if j < k mod n then 1 else 0)"
proof (induction k)
  case 0
  then show ?case by (simp add: served_def)
next
  case (Suc k)
  have m: "k mod n < n" using Suc.prems by simp
  show ?case
  proof (cases "Suc (k mod n) = n")
    case True
    then have "Suc k mod n = 0" "Suc k div n = Suc (k div n)"
      by (simp_all add: mod_Suc div_Suc)
    then show ?thesis using Suc True by (auto simp: served_Suc)
  next
    case False
    then have "Suc k mod n = Suc (k mod n)" "Suc k div n = k div n"
      by (simp_all add: mod_Suc div_Suc)
    then show ?thesis using Suc False by (auto simp: served_Suc)
  qed
qed

lemma sum_counts:
  assumes "0 < n"
  shows "sum_list (map (\<lambda>j. k div n + (if j < k mod n then 1 else 0)) [0..<n]) = (k::nat)"
proof -
  have a: "sum_list (map (\<lambda>j. k div n + (if j < k mod n then 1 else 0)) [0..<n])
      = (\<Sum>j = 0..<n. k div n + (if j < k mod n then 1 else 0))"
    by (simp only: interv_sum_list_conv_sum_set_nat set_upt)
  have b: "(\<Sum>j = 0..<n. k div n + (if j < k mod n then 1 else 0))
      = n * (k div n) + (\<Sum>j = 0..<n. if j < k mod n then 1 else 0)"
    by (simp only: sum.distrib) simp
  have c: "{j \<in> {0..<n}. j < k mod n} = {0..<k mod n}"
    using assms mod_less_divisor[of n k] by (auto intro: less_trans)
  have d: "(\<Sum>j = 0..<n. if j < k mod n then 1 else 0) = card {j \<in> {0..<n}. j < k mod n}"
    by (subst sum.inter_filter[symmetric]) simp_all
  show ?thesis unfolding a b d c by simp
qed


lemma ceil_div:
  assumes "0 < (n::nat)"
  shows "(k + n - 1) div n = k div n + (if k mod n = 0 then 0 else 1)"
proof (cases "k mod n = 0")
  case True
  have "k = (k div n) * n" using True by (simp add: mod_eq_0_iff_dvd)
  then have "k + n - 1 = (n - 1) + (k div n) * n" using assms by simp
  then have "(k + n - 1) div n = ((n - 1) + (k div n) * n) div n" by simp
  also have "\<dots> = k div n + (n - 1) div n" using assms by (simp only: div_mult_self1)
  also have "(n - 1) div n = 0" using assms by simp
  finally show ?thesis using True by simp
next
  case False
  define q r where "q = k div n" and "r = k mod n"
  have k: "k = r + q * n" and r: "0 < r" "r < n"
    using False assms by (simp_all add: q_def r_def)
  have "k + n - 1 = (r - 1) + (q + 1) * n" using r unfolding k by simp
  then have "(k + n - 1) div n = ((r - 1) + (q + 1) * n) div n" by simp
  also have "\<dots> = (q + 1) + (r - 1) div n"
    using assms by (simp only: div_mult_self1)
  also have "(r - 1) div n = 0" using r by simp
  finally show ?thesis using False by (simp add: q_def)
qed

lemma label_features_class_ids:
  "list_all (\<lambda>kv. PInt (int_cast (snd kv)) = snd kv) l \<Longrightarrow>
   label_features l f =
     Inr (fold (\<lambda>kv feature. AList.update (fst kv) (Int64Feature (int_cast (snd kv))) feature)
            l f)"
  by (induction l f rule: label_features.induct) simp_all

lemma serialize_example_int_labels:
  "int_labels l \<Longrightarrow> serialize_example d l = Inr (feature_dict d l)"
  unfolding int_labels_def serialize_example_def feature_dict_def
  by (rule label_features_class_ids)

lemma rr_state_enter:
  "rr_state (length names) [] (DEAPWriter_enter (DEAPWriter_init names))"
  by (simp add: rr_state_def DEAPWriter_enter_def DEAPWriter_init_def served_def)

lemma served_bound: "i \<in> set (served n k j) \<Longrightarrow> i < k"
  by (simp add: served_def)

lemma rr_state_step:
  assumes "0 < n" and "rr_state n exs w" and "int_labels l"
  shows "\<exists>w'. DEAPWriter_write_example d l w = Inr w' \<and> rr_state n (exs @ [(d, l)]) w'"
proof -
  let ?k = "length exs"
  let ?ser = "\<lambda>xs i. feature_dict (fst (xs ! i)) (snd (xs ! i))"
  from assms(2) obtain ws where ws: "writers w = Some ws" "length ws = n"
    and it: "writer_iterator w = ?k mod n"
    and rp: "length (records_processed w) = n"
    and cnt: "\<forall>j<n. records_processed w ! j = length (ws ! j)"
    and con: "\<forall>j<n. ws ! j = map (?ser exs) (served n ?k j)"
    unfolding rr_state_def by blast
  let ?id = "?k mod n"
  have id: "?id < n" using assms(1) by simp
  let ?ws' = "ws[?id := ws ! ?id @ [feature_dict d l]]"
  let ?w' = "w\<lparr> shape := Some (ndarray_shape d), writers := Some ?ws',
                writer_iterator := (?id + 1) mod length ws,
                records_processed := (records_processed w)[?id := records_processed w ! ?id + 1] \<rparr>"
  have ne: "ws \<noteq> []" using ws(2) assms(1) by auto
  have step: "DEAPWriter_write_example d l w = Inr ?w'"
    using ws ne it serialize_example_int_labels[OF assms(3), of d]
    by (simp add: DEAPWriter_write_example_def Let_def)
  have old: "map (?ser (exs @ [(d, l)])) (served n ?k j) = map (?ser exs) (served n ?k j)" for j
    by (rule map_cong) (auto simp: nth_append dest: served_bound)
  have con': "?ws' ! j = map (?ser (exs @ [(d, l)])) (served n (Suc ?k) j)" if "j < n" for j
  proof (cases "j = ?id")
    case True
    then show ?thesis using that ws(2) con old[of j] by (simp add: served_Suc)
  next
    case False
    then show ?thesis using that ws(2) con old[of j] by (auto simp: served_Suc)
  qed
  have cnt': "(records_processed w)[?id := records_processed w ! ?id + 1] ! j = length (?ws' ! j)"
    if "j < n" for j
    using that cnt rp ws(2) by (cases "j = ?id") auto
  have "rr_state n (exs @ [(d, l)]) ?w'"
    unfolding rr_state_def
    using ws(2) rp con' cnt' by (auto simp: mod_Suc_eq)
  with step show ?thesis by blast
qed

lemma rr_state_run:
  assumes "0 < n" and "rr_state n [] w0"
  shows "\<forall>p\<in>set exs. int_labels (snd p) \<Longrightarrow>
         \<exists>w. write_examples exs w0 = Inr w \<and> rr_state n exs w"
proof (induction exs rule: rev_induct)
  case Nil
  then show ?case using assms(2) by simp
next
  case (snoc x xs)
  then obtain w where w: "write_examples xs w0 = Inr w" "rr_state n xs w" by auto
  obtain d l where x: "x = (d, l)" by (cases x)
  have l: "int_labels l" using snoc.prems x by simp
  from rr_state_step[OF assms(1) w(2) l, of d] obtain w'
    where "DEAPWriter_write_example d l w = Inr w'" "rr_state n (xs @ [(d, l)]) w'" by blast
  then show ?case using w(1) x by (auto simp: write_examples_append)
qed

lemma rr_state_counts:
  assumes "0 < n" and "rr_state n exs w" and "j < n"
  shows "records_processed w ! j = length exs div n + (if j < length exs mod n then 1 else 0)"
  using assms(2,3) length_served[OF assms(1) assms(3), of "length exs"]
  unfolding rr_state_def by auto

lemma rr_state_sum:
  assumes "0 < n" and "rr_state n exs w"
  shows "sum_list (records_processed w) = length exs"
proof -
  let ?k = "length exs"
  have rp: "length (records_processed w) = n" using assms(2) unfolding rr_state_def by blast
  have "records_processed w = map (\<lambda>j. ?k div n + (if j < ?k mod n then 1 else 0)) [0..<n]"
    by (rule nth_equalityI) (use rp rr_state_counts[OF assms] in auto)
  then show ?thesis using sum_counts[OF assms(1), of ?k] by simp
qed

lemma rr_state_records:
  assumes "rr_state n exs w" and "\<forall>p\<in>set exs. int_labels (snd p)" and "j < n"
  shows "\<exists>ws. writers w = Some ws \<and> length ws = n \<and>
     map Inr (ws ! j) =
       map (\<lambda>i. serialize_example (fst (exs ! i)) (snd (exs ! i)))
         (filter (\<lambda>i. i mod n = j) [0..<length exs])"
proof -
  from assms(1) obtain ws where ws: "writers w = Some ws" "length ws = n"
    and con: "\<forall>j<n. ws ! j =
       map (\<lambda>i. feature_dict (fst (exs ! i)) (snd (exs ! i))) (served n (length exs) j)"
    unfolding rr_state_def by blast
  have "Inr (feature_dict (fst (exs ! i)) (snd (exs ! i))) =
        serialize_example (fst (exs ! i)) (snd (exs ! i))"
    if "i \<in> set (served n (length exs) j)" for i
    using served_bound[OF that] assms(2) by (simp add: serialize_example_int_labels)
  then have "map Inr (ws ! j) =
       map (\<lambda>i. serialize_example (fst (exs ! i)) (snd (exs ! i))) (served n (length exs) j)"
    using con assms(3) by (simp add: comp_def)
  then show ?thesis using ws by (simp add: served_def)
qed

text \<open>
  C8. A writer entered over \<open>n \<ge> 1\<close> destinations accepts any sequence of \<open>k\<close>
  examples whose label dicts hold integers. Destination \<open>j\<close> receives exactly the
  serialized writes number \<open>j, j + n, j + 2n, \<dots>\<close> in order, its counter equals the
  number of its records, which is \<open>k div n\<close> plus one for the first \<open>k mod n\<close>
  destinations: the floor or the ceiling of \<open>k / n\<close>. The counters add up to \<open>k\<close>.
\<close>

theorem write_example_round_robin:
  assumes "names \<noteq> []" and "\<forall>p\<in>set exs. int_labels (snd p)"
  shows "\<exists>w ws. write_examples exs (DEAPWriter_enter (DEAPWriter_init names)) = Inr w \<and>
     writers w = Some ws \<and> length ws = length names \<and>
     length (records_processed w) = length names \<and>
     (\<forall>j<length names.
        map Inr (ws ! j) =
          map (\<lambda>i. serialize_example (fst (exs ! i)) (snd (exs ! i)))
            (filter (\<lambda>i. i mod length names = j) [0..<length exs]) \<and>
        records_processed w ! j = length (ws ! j) \<and>
        records_processed w ! j =
          length exs div length names + (if j < length exs mod length names then 1 else 0) \<and>
        (records_processed w ! j = length exs div length names \<or>
         records_processed w ! j = (length exs + length names - 1) div length names)) \<and>
     sum_list (records_processed w) = length exs"
proof -
  let ?n = "length names" and ?k = "length exs"
  have n: "0 < ?n" using assms(1) by simp
  from rr_state_run[OF n rr_state_enter assms(2)] obtain w
    where run: "write_examples exs (DEAPWriter_enter (DEAPWriter_init names)) = Inr w"
      and st: "rr_state ?n exs w" by blast
  from st obtain ws where ws: "writers w = Some ws" "length ws = ?n"
      and rp: "length (records_processed w) = ?n"
      and cnt: "\<forall>j<?n. records_processed w ! j = length (ws ! j)"
    unfolding rr_state_def by blast
  have con: "map Inr (ws ! j) =
          map (\<lambda>i. serialize_example (fst (exs ! i)) (snd (exs ! i)))
            (filter (\<lambda>i. i mod ?n = j) [0..<?k])" if "j < ?n" for j
    using rr_state_records[OF st assms(2) that] ws by simp
  have val: "records_processed w ! j = ?k div ?n + (if j < ?k mod ?n then 1 else 0)"
    if "j < ?n" for j
    by (rule rr_state_counts[OF n st that])
  have ceil: "(?k + ?n - 1) div ?n = ?k div ?n + (if ?k mod ?n = 0 then 0 else 1)"
    by (rule ceil_div[OF n])
  have fc: "records_processed w ! j = ?k div ?n \<or> records_processed w ! j = (?k + ?n - 1) div ?n"
    if "j < ?n" for j
    using val[OF that] ceil by (auto split: if_splits)
  have "sum_list (records_processed w) = ?k" by (rule rr_state_sum[OF n st])
  then show ?thesis using run ws rp cnt con val fc by blast
qed

theorem write_example_round_robin_witness:
  "[''train-0'', ''train-1''] \<noteq> [] \<and>
   (\<exists>w ws. write_examples
        [(A2 [[1::rat]], [(''valence'', PInt 0)]), (A2 [[2]], [(''valence'', PInt 1)]),
         (A2 [[3]], [(''valence'', PInt 2)])]
        (DEAPWriter_enter (DEAPWriter_init [''train-0'', ''train-1''])) = Inr w \<and>
     writers w = Some ws \<and>
     ws ! 0 = [[(''X'', NumpyFeature (A2 [[1]])), (''valence'', Int64Feature 0)],
               [(''X'', NumpyFeature (A2 [[3]])), (''valence'', Int64Feature 2)]] \<and>
     ws ! 1 = [[(''X'', NumpyFeature (A2 [[2]])), (''valence'', Int64Feature 1)]] \<and>
     records_processed w ! 0 = 2 \<and> records_processed w ! 1 = 1 \<and>
     sum_list (records_processed w) = 3)"
proof -
  let ?exs = "[(A2 [[1::rat]], [(''valence'', PInt 0)]), (A2 [[2]], [(''valence'', PInt 1)]),
         (A2 [[3]], [(''valence'', PInt 2)])]"
  let ?names = "[''train-0'', ''train-1'']"
  have h1: "?names \<noteq> []" by simp
  have h2: "\<forall>p\<in>set ?exs. int_labels (snd p)" by (simp add: int_labels_def)
  from write_example_round_robin [OF h1 h2]
  obtain w ws where run: "write_examples ?exs (DEAPWriter_enter (DEAPWriter_init ?names)) = Inr w"
    and ws: "writers w = Some ws"
    and all: "\<forall>j<length ?names.
        map Inr (ws ! j) =
          map (\<lambda>i. serialize_example (fst (?exs ! i)) (snd (?exs ! i)))
            (filter (\<lambda>i. i mod length ?names = j) [0..<length ?exs]) \<and>
        records_processed w ! j = length (ws ! j) \<and>
        records_processed w ! j =
          length ?exs div length ?names + (if j < length ?exs mod length ?names then 1 else 0) \<and>
        (records_processed w ! j = length ?exs div length ?names \<or>
         records_processed w ! j = (length ?exs + length ?names - 1) div length ?names)"
    and total: "sum_list (records_processed w) = length ?exs"
    by blast
  have w0: "ws ! 0 = [[(''X'', NumpyFeature (A2 [[1]])), (''valence'', Int64Feature 0)],
               [(''X'', NumpyFeature (A2 [[3]])), (''valence'', Int64Feature 2)]]"
    using all[rule_format, of 0]
    by (auto simp: serialize_example_def map_eq_Cons_conv upt_rec)
  have w1: "ws ! 1 = [[(''X'', NumpyFeature (A2 [[2]])), (''valence'', Int64Feature 1)]]"
    using all[rule_format, of 1]
    by (auto simp: serialize_example_def map_eq_Cons_conv upt_rec)
  have c: "records_processed w ! 0 = 2" "records_processed w ! 1 = 1"
    using all[rule_format, of 0] all[rule_format, of 1] w0 w1 by simp_all
  show ?thesis using run ws w0 w1 c total by auto
qed

section \<open>Properties of the sample buffer\<close>

lemma map_err_broadcast_row:
  "list_all (\<lambda>r. length r = n) m \<Longrightarrow> map_err (broadcast_row n) m = Inr m"
  by (induction m) (simp_all add: broadcast_row_def)

lemma fits_slot_store:
  assumes "fits_slot sh llen (d, l)"
  shows "broadcast_to sh d = Inr (matrix_of d)"
    and "broadcast_row llen (map int_cast l) = Inr (map int_cast l)"
    and "d = A2 (matrix_of d)"
  using assms
  by (auto simp: fits_slot_def broadcast_rows_def broadcast_row_def map_err_broadcast_row
           split: ndarray.splits)

lemma buffer_examples_fill:
  assumes "\<forall>p \<in> set ps. fits_slot (item_shape b) (label_len b) p"
    and "collected b + length ps \<le> length (data_buffer b)"
    and "length (label_buffer b) = length (data_buffer b)"
  shows "\<exists>b'. buffer_examples ps b = Inr b' \<and>
           collected b' = collected b + length ps \<and>
           length (data_buffer b') = length (data_buffer b) \<and>
           length (label_buffer b') = length (data_buffer b) \<and>
           writer b' = writer b \<and> buffer_label_names b' = buffer_label_names b \<and>
           item_shape b' = item_shape b \<and> label_len b' = label_len b \<and>
           (\<forall>i<collected b. data_buffer b' ! i = data_buffer b ! i \<and>
                              label_buffer b' ! i = label_buffer b ! i) \<and>
           (\<forall>i<length ps. data_buffer b' ! (collected b + i) = matrix_of (fst (ps ! i)) \<and>
                    label_buffer b' ! (collected b + i) = map int_cast (snd (ps ! i)))"
  using assms
proof (induction ps arbitrary: b)
  case Nil
  then show ?case by simp
next
  case (Cons p ps)
  obtain d l where p: "p = (d, l)" by (cases p)
  let ?c = "collected b"
  let ?b1 = "b\<lparr> data_buffer := (data_buffer b)[?c := matrix_of d],
                label_buffer := (label_buffer b)[?c := map int_cast l],
                collected := ?c + 1 \<rparr>"
  have fit: "fits_slot (item_shape b) (label_len b) (d, l)" using Cons.prems(1) p by simp
  have c: "?c < length (data_buffer b)" using Cons.prems(2) by simp
  have step: "DEAPWriterBuffer_write_example d l b = Inr ?b1"
    using c fits_slot_store(1,2)[OF fit] by (simp add: DEAPWriterBuffer_write_example_def)
  have "\<exists>b'. buffer_examples ps ?b1 = Inr b' \<and>
           collected b' = collected ?b1 + length ps \<and>
           length (data_buffer b') = length (data_buffer ?b1) \<and>
           length (label_buffer b') = length (data_buffer ?b1) \<and>
           writer b' = writer ?b1 \<and> buffer_label_names b' = buffer_label_names ?b1 \<and>
           item_shape b' = item_shape ?b1 \<and> label_len b' = label_len ?b1 \<and>
           (\<forall>i<collected ?b1. data_buffer b' ! i = data_buffer ?b1 ! i \<and>
                              label_buffer b' ! i = label_buffer ?b1 ! i) \<and>
           (\<forall>i<length ps. data_buffer b' ! (collected ?b1 + i) = matrix_of (fst (ps ! i)) \<and>
                    label_buffer b' ! (collected ?b1 + i) = map int_cast (snd (ps ! i)))"
    using Cons.prems by (intro Cons.IH) simp_all
  then obtain b' where b': "buffer_examples ps ?b1 = Inr b'"
      "collected b' = ?c + 1 + length ps"
      "length (data_buffer b') = length (data_buffer b)"
      "length (label_buffer b') = length (data_buffer b)"
      "writer b' = writer b" "buffer_label_names b' = buffer_label_names b"
      "item_shape b' = item_shape b" "label_len b' = label_len b"
    and old: "\<forall>i<?c + 1. data_buffer b' ! i = (data_buffer b)[?c := matrix_of d] ! i \<and>
                   label_buffer b' ! i = (label_buffer b)[?c := map int_cast l] ! i"
    and new: "\<forall>i<length ps. data_buffer b' ! (?c + 1 + i) = matrix_of (fst (ps ! i)) \<and>
                    label_buffer b' ! (?c + 1 + i) = map int_cast (snd (ps ! i))"
    by auto
  have run: "buffer_examples (p # ps) b = Inr b'" using step b'(1) p by simp
  have keep: "\<forall>i<?c. data_buffer b' ! i = data_buffer b ! i \<and>
                       label_buffer b' ! i = label_buffer b ! i"
    using old by auto
  have fresh: "data_buffer b' ! (?c + i) = matrix_of (fst ((p # ps) ! i)) \<and>
               label_buffer b' ! (?c + i) = map int_cast (snd ((p # ps) ! i))"
    if "i < length (p # ps)" for i
  proof (cases i)
    case 0
    then show ?thesis using old c Cons.prems(3) p by simp
  next
    case (Suc i')
    then show ?thesis using new that by simp
  qed
  show ?case using run b'(2-8) keep fresh by auto
qed


lemma map_err_index:
  "\<forall>i \<in> set idx. i < length xs \<Longrightarrow> map_err (index xs) idx = Inr (map ((!) xs) idx)"
  by (induction idx) (simp_all add: index_def)

lemma take_indices_ok:
  "\<forall>i \<in> set idx. i < length xs \<Longrightarrow> take_indices xs idx = Inr (map ((!) xs) idx)"
  by (simp add: take_indices_def map_err_index)

lemma labels_np_to_dict_writer [simp]:
  "labels_np_to_dict (self\<lparr> writer := w \<rparr>) l = labels_np_to_dict self l"
  by (simp add: labels_np_to_dict_def)

lemma flush_loop_writes:
  assumes "\<forall>i \<in> set idx. i < length (data_buffer self) \<and> i < length (label_buffer self)"
  shows "flush_loop idx self =
     bind_err
       (write_examples
          (map (\<lambda>i. (A2 (data_buffer self ! i), labels_np_to_dict self (label_buffer self ! i))) idx)
          (writer self))
       (\<lambda>w. Inr (self\<lparr> writer := w \<rparr>))"
  using assms
proof (induction idx arbitrary: self)
  case Nil
  then show ?case by simp
next
  case (Cons i idx)
  let ?d = "data_buffer self ! i" and ?l = "label_buffer self ! i"
  show ?case
  proof (cases "DEAPWriter_write_example (A2 ?d) (labels_np_to_dict self ?l) (writer self)")
    case (Inl e)
    then show ?thesis using Cons.prems by (simp add: index_def)
  next
    case (Inr w)
    have "flush_loop idx (self\<lparr> writer := w \<rparr>) =
       bind_err
         (write_examples
            (map (\<lambda>i. (A2 (data_buffer (self\<lparr> writer := w \<rparr>) ! i),
                        labels_np_to_dict (self\<lparr> writer := w \<rparr>)
                          (label_buffer (self\<lparr> writer := w \<rparr>) ! i))) idx)
            (writer (self\<lparr> writer := w \<rparr>)))
         (\<lambda>w'. Inr (self\<lparr> writer := w \<rparr>\<lparr> writer := w' \<rparr>))"
      using Cons.prems by (intro Cons.IH) simp
    then show ?thesis using Inr Cons.prems by (simp add: index_def)
  qed
qed

lemma class_ids_cast: "class_ids l \<Longrightarrow> map (\<lambda>v. PInt (int_cast v)) l = l"
  unfolding class_ids_def by (induction l) simp_all

lemma flush_buffer_filled:
  assumes fit: "\<forall>p \<in> set ps. fits_slot (item_shape b) (label_len b) p"
    and ints: "\<forall>p \<in> set ps. class_ids (snd p)"
    and len: "length (data_buffer b) = length ps + free" "length (label_buffer b) = length ps + free"
    and col: "collected b = length ps"
    and dat: "\<forall>i<length ps. data_buffer b ! i = matrix_of (fst (ps ! i)) \<and>
                label_buffer b ! i = map int_cast (snd (ps ! i))"
    and perm: "mset permutation = mset [0..<length ps]"
  shows "flush_buffer permutation b =
     bind_err (write_examples (drained (buffer_label_names b) ps permutation) (writer b))
       (\<lambda>w. Inr (b\<lparr> data_buffer := map ((!) (data_buffer b)) permutation,
                     label_buffer := map ((!) (label_buffer b)) permutation,
                     writer := w \<rparr>))"
proof -
  let ?k = "length ps"
  have pset: "set permutation = {0..<?k}"
    using perm by (metis mset_eq_setD set_upt)
  have plen: "length permutation = ?k"
    using perm by (metis mset_eq_length length_upt diff_zero)
  have inb: "\<forall>i \<in> set permutation. i < length (data_buffer b)"
    "\<forall>i \<in> set permutation. i < length (label_buffer b)"
    using pset len by auto
  let ?db = "map ((!) (data_buffer b)) permutation"
  let ?lb = "map ((!) (label_buffer b)) permutation"
  let ?b1 = "b\<lparr> data_buffer := ?db, label_buffer := ?lb \<rparr>"
  have fb: "flush_buffer permutation b = flush_loop [0..<?k] ?b1"
    using take_indices_ok[OF inb(1)] take_indices_ok[OF inb(2)] col
    by (simp add: flush_buffer_def)
  have "flush_loop [0..<?k] ?b1 =
     bind_err
       (write_examples
          (map (\<lambda>i. (A2 (data_buffer ?b1 ! i), labels_np_to_dict ?b1 (label_buffer ?b1 ! i)))
             [0..<?k])
          (writer ?b1))
       (\<lambda>w. Inr (?b1\<lparr> writer := w \<rparr>))"
    by (rule flush_loop_writes) (simp add: plen)
  moreover have "map (\<lambda>i. (A2 (data_buffer ?b1 ! i), labels_np_to_dict ?b1 (label_buffer ?b1 ! i)))
             [0..<?k] = drained (buffer_label_names b) ps permutation"
  proof (rule nth_equalityI)
    show "length (map (\<lambda>i. (A2 (data_buffer ?b1 ! i),
              labels_np_to_dict ?b1 (label_buffer ?b1 ! i))) [0..<?k])
        = length (drained (buffer_label_names b) ps permutation)"
      by (simp add: drained_def plen)
  next
    fix i assume "i < length (map (\<lambda>i. (A2 (data_buffer ?b1 ! i),
              labels_np_to_dict ?b1 (label_buffer ?b1 ! i))) [0..<?k])"
    then have i: "i < ?k" by simp
    then have p: "permutation ! i < ?k" using pset plen nth_mem[of i permutation] by auto
    have "fits_slot (item_shape b) (label_len b) (ps ! (permutation ! i))"
      using fit p by simp
    then have "fits_slot (item_shape b) (label_len b)
        (fst (ps ! (permutation ! i)), snd (ps ! (permutation ! i)))" by simp
    from fits_slot_store(3)[OF this]
    have a2: "A2 (matrix_of (fst (ps ! (permutation ! i)))) = fst (ps ! (permutation ! i))"
      by simp
    show "map (\<lambda>i. (A2 (data_buffer ?b1 ! i), labels_np_to_dict ?b1 (label_buffer ?b1 ! i)))
             [0..<?k] ! i = drained (buffer_label_names b) ps permutation ! i"
      using i p plen dat a2 class_ids_cast[of "snd (ps ! (permutation ! i))"] ints
      by (simp add: drained_def labels_np_to_dict_def comp_def)
  qed
  ultimately show ?thesis using fb by simp
qed


text \<open>
  C7. Let the pairs \<open>ps\<close>, samples of the slot's shape with label vectors of class
  ids, be appended to a fresh buffer of capacity at least \<open>length ps\<close>, and let \<open>permutation\<close> be the outcome of
  \<^verbatim>\<open>np.random.permutation(collected)\<close>, a permutation of \<open>[0, collected)\<close>. Then
  \<^verbatim>\<open>flush_buffer\<close> leaves the writer exactly as writing the pairs
  \<open>ps ! permutation[0], ps ! permutation[1], \<dots>\<close> in this order does: every record holds
  a sample together with the label vector appended with it, and every appended pair is
  written once.
\<close>

theorem flush_buffer_keeps_pairs:
  assumes fit: "\<forall>p \<in> set ps. fits_slot sh llen p"
    and ints: "\<forall>p \<in> set ps. class_ids (snd p)"
    and cap: "length ps \<le> cap"
    and perm: "mset permutation = mset [0..<length ps]"
  shows "\<exists>b0 b. DEAPWriterBuffer_init dw sh llen (int cap) = Inr b0 \<and>
           buffer_examples ps b0 = Inr b \<and> collected b = length ps \<and>
           map_sum id writer (flush_buffer permutation b) =
             write_examples
               (drained [''valence'', ''arousal'', ''dominance'', ''liking''] ps permutation) dw \<and>
           mset (drained [''valence'', ''arousal'', ''dominance'', ''liking''] ps permutation) =
             mset (drained [''valence'', ''arousal'', ''dominance'', ''liking''] ps
                     [0..<length ps])"
proof -
  let ?names = "[''valence'', ''arousal'', ''dominance'', ''liking'']"
  let ?b0 = "\<lparr> item_shape = sh, label_len = llen,
                data_buffer = replicate cap (replicate (fst sh) (replicate (snd sh) 0)),
                label_buffer = replicate cap (replicate llen 0),
                writer = dw, collected = 0, buffer_label_names = ?names \<rparr>"
  have init: "DEAPWriterBuffer_init dw sh llen (int cap) = Inr ?b0"
    by (simp add: DEAPWriterBuffer_init_def)
  from buffer_examples_fill[of ps ?b0] fit cap
  obtain b where b: "buffer_examples ps ?b0 = Inr b" "collected b = length ps"
      "length (data_buffer b) = cap" "length (label_buffer b) = cap"
      "writer b = dw" "buffer_label_names b = ?names"
      "item_shape b = sh" "label_len b = llen"
    and dat: "\<forall>i<length ps. data_buffer b ! i = matrix_of (fst (ps ! i)) \<and>
                label_buffer b ! i = map int_cast (snd (ps ! i))"
    by auto
  have "flush_buffer permutation b =
     bind_err (write_examples (drained (buffer_label_names b) ps permutation) (writer b))
       (\<lambda>w. Inr (b\<lparr> data_buffer := map ((!) (data_buffer b)) permutation,
                     label_buffer := map ((!) (label_buffer b)) permutation,
                     writer := w \<rparr>))"
    by (rule flush_buffer_filled[where free = "cap - length ps"])
       (use fit ints b cap dat perm in auto)
  then have fl: "map_sum id writer (flush_buffer permutation b) =
      write_examples (drained ?names ps permutation) dw"
    using b(5,6) by (cases "write_examples (drained ?names ps permutation) dw") simp_all
  have "mset (drained ?names ps permutation) = mset (drained ?names ps [0..<length ps])"
    unfolding drained_def mset_map perm[symmetric] ..
  with init b(1,2) fl show ?thesis by blast
qed

theorem flush_buffer_keeps_pairs_witness:
  "fits_slot (1, 2) 4 (A2 [[1, 2::rat]], [PInt 0, PInt 1, PInt 1, PInt 0]) \<and>
   fits_slot (1, 2) 4 (A2 [[3, 4::rat]], [PInt 1, PInt 0, PInt 0, PInt 1]) \<and>
   mset [1, 0] = mset [0..<2] \<and>
   (\<exists>b0 b. DEAPWriterBuffer_init (DEAPWriter_enter (DEAPWriter_init [''train''])) (1, 2) 4 2
              = Inr b0 \<and>
      buffer_examples [(A2 [[1, 2::rat]], [PInt 0, PInt 1, PInt 1, PInt 0]),
                       (A2 [[3, 4]], [PInt 1, PInt 0, PInt 0, PInt 1])] b0 = Inr b \<and>
      map_sum id writer (flush_buffer [1, 0] b) =
        write_examples
          [(A2 [[3, 4]], [(''valence'', PInt 1), (''arousal'', PInt 0),
                          (''dominance'', PInt 0), (''liking'', PInt 1)]),
           (A2 [[1, 2]], [(''valence'', PInt 0), (''arousal'', PInt 1),
                          (''dominance'', PInt 1), (''liking'', PInt 0)])]
          (DEAPWriter_enter (DEAPWriter_init [''train''])))"
proof -
  let ?ps = "[(A2 [[1, 2::rat]], [PInt 0, PInt 1, PInt 1, PInt 0]),
              (A2 [[3, 4]], [PInt 1, PInt 0, PInt 0, PInt 1])]"
  have fit: "\<forall>p \<in> set ?ps. fits_slot (1, 2) 4 p" by (simp add: fits_slot_def)
  have ints: "\<forall>p \<in> set ?ps. class_ids (snd p)" by (simp add: class_ids_def)
  have cap: "length ?ps \<le> 2" by simp
  have perm: "mset [1, 0] = mset [0..<length ?ps]" by (simp add: upt_rec)
  have perm2: "mset [1, 0::nat] = mset [0..<2]" by (simp add: upt_rec)
  have dr: "drained [''valence'', ''arousal'', ''dominance'', ''liking''] ?ps [1, 0] =
      [(A2 [[3, 4]], [(''valence'', PInt 1), (''arousal'', PInt 0),
                      (''dominance'', PInt 0), (''liking'', PInt 1)]),
       (A2 [[1, 2]], [(''valence'', PInt 0), (''arousal'', PInt 1),
                      (''dominance'', PInt 1), (''liking'', PInt 0)])]"
    by (simp add: drained_def dict_of_def)
  from flush_buffer_keeps_pairs [OF fit ints cap perm,
      of "DEAPWriter_enter (DEAPWriter_init [''train''])"]
  show ?thesis using fit perm2 unfolding dr by auto
qed

section \<open>Properties of the windows\<close>

lemma windowed_from_Nil [simp]: "windowed_from [] n step = []"
  by (simp add: windowed_from.simps)

lemma windowed_from_upt:
  assumes "1 \<le> n" and "1 \<le> step"
  shows "(j < length (windowed_from [a..<b] n step) \<longleftrightarrow>
            a < b \<and> (j = 0 \<or> (a + j * step < b \<and> a + (j - 1) * step + n < b))) \<and>
         (j < length (windowed_from [a..<b] n step) \<longrightarrow>
            windowed_from [a..<b] n step ! j =
              map Some [a + j * step..<min (a + j * step + n) b]
              @ replicate (a + j * step + n - b) None)"
proof (induction "b - a" arbitrary: a j rule: less_induct)
  case less
  show ?case
  proof (cases "b \<le> a")
    case True
    then show ?thesis by simp
  next
    case False
    then have ab: "a < b" by simp
    show ?thesis
    proof (cases "b - a \<le> n")
      case True
      then have ws: "windowed_from [a..<b] n step = [map Some [a..<b] @ replicate (n - (b - a)) None]"
        using ab by (simp add: windowed_from.simps[of "[a..<b]"])
      have "a + n - b = n - (b - a)" using ab by simp
      moreover have "min (a + n) b = b" using True ab by simp
      moreover have "\<not> (a + (j - 1) * step + n < b)" using True by simp
      ultimately show ?thesis using ab unfolding ws by auto
    next
      case False
      let ?rest = "windowed_from [a + step..<b] n step"
      have ws: "windowed_from [a..<b] n step = map Some [a..<a + n] # ?rest"
        using ab False assms
        by (simp add: windowed_from.simps[of "[a..<b]"] take_upt drop_upt)
      show ?thesis
      proof (cases j)
        case 0
        have "min (a + n) b = a + n" using False by simp
        moreover have "a + n - b = 0" using False by simp
        ultimately show ?thesis using 0 ab unfolding ws by simp
      next
        case (Suc j')
        have "b - (a + step) < b - a" using ab assms(2) by simp
        from less[OF this, of j']
        have ih1: "j' < length ?rest \<longleftrightarrow>
            a + step < b \<and> (j' = 0 \<or> (a + step + j' * step < b \<and> a + step + (j' - 1) * step + n < b))"
          and ih2: "j' < length ?rest \<longrightarrow>
            ?rest ! j' = map Some [a + step + j' * step..<min (a + step + j' * step + n) b]
              @ replicate (a + step + j' * step + n - b) None"
          by blast+
        have e1: "a + step + j' * step = a + Suc j' * step" by simp
        have e2: "j' \<noteq> 0 \<Longrightarrow> a + step + (j' - 1) * step = a + j' * step"
          by (cases j') simp_all
        have mem: "j' < length ?rest \<longleftrightarrow> a + Suc j' * step < b \<and> a + j' * step + n < b"
        proof (cases "j' = 0")
          case True
          then show ?thesis using ih1 False by auto
        next
          case False
          then show ?thesis using ih1 e2 by auto
        qed
        show ?thesis using mem ih2 Suc ab unfolding ws e1 by simp
      qed
    qed
  qed
qed


text \<open>
  A window that holds a fill value cannot be used to index a trial: \<^verbatim>\<open>data[w, :]\<close>
  raises.
\<close>

lemma select_rows_fill_value:
  "None \<in> set w \<Longrightarrow> isl (select_rows data w)"
proof (induction w)
  case Nil
  then show ?case by simp
next
  case (Cons p w)
  show ?case
  proof (cases p)
    case None
    then show ?thesis by (simp add: select_rows_def)
  next
    case (Some i)
    then have "isl (select_rows data w)" using Cons by simp
    then show ?thesis
      using Some
      by (cases "index data i"; cases "map_err (case_option (Inl IndexError) (index data)) w")
         (simp_all add: select_rows_def)
  qed
qed

text \<open>
  C4. Claim: every index-window holds \<open>window_length\<close> positions of the timeline, and a
  shorter trailing remainder is dropped, never padded. The windows come from
  \<^verbatim>\<open>more_itertools.windowed\<close>, which pads: over a timeline of 10 positions with
  windows of 4 and step 4 the third window is \<open>(8, 9, None, None)\<close>.
\<close>

theorem windowed_remainder_counterexample:
  "windowed [0..<10] 4 4 =
     Inr [[Some 0, Some 1, Some 2, Some 3], [Some 4, Some 5, Some 6, Some 7],
          [Some 8, Some 9, None, None]]"
  by code_simp

text \<open>
  C4, as the code behaves. For a window length \<open>n \<ge> 1\<close> and a step \<open>\<ge> 1\<close> over the
  timeline \<open>[0, L)\<close>: window \<open>j\<close> exists exactly when the timeline is not empty and
  either \<open>j = 0\<close>, or the frame starts inside the timeline (\<open>j * step < L\<close>) and the
  frame before it ended inside it (\<open>(j - 1) * step + n < L\<close>). Every window has exactly
  \<open>n\<close> entries: the consecutive positions from \<open>j * step\<close> up to the end of the frame or
  of the timeline, in increasing order, followed by \<open>None\<close> for the part of the frame
  beyond the timeline. A trailing remainder is thus emitted, padded, and not dropped.
\<close>

theorem windowed_pads_last_window:
  assumes "1 \<le> n" and "1 \<le> step"
  shows "\<exists>ws. windowed [0..<L] (int n) (of_nat step) = Inr ws \<and>
     (\<forall>j. j < length ws \<longleftrightarrow> 0 < L \<and> (j = 0 \<or> (j * step < L \<and> (j - 1) * step + n < L))) \<and>
     (\<forall>j<length ws. length (ws ! j) = n \<and>
        ws ! j = map Some [j * step..<min (j * step + n) L] @ replicate (j * step + n - L) None)"
proof -
  let ?ws = "windowed_from [0..<L] n step"
  have run: "windowed [0..<L] (int n) (of_nat step) = Inr ?ws"
    using assms by (simp add: windowed_def)
  have mem: "j < length ?ws \<longleftrightarrow> 0 < L \<and> (j = 0 \<or> (j * step < L \<and> (j - 1) * step + n < L))"
    for j
    using windowed_from_upt[OF assms, of j 0 L] by simp
  have win: "?ws ! j = map Some [j * step..<min (j * step + n) L] @ replicate (j * step + n - L) None"
    if "j < length ?ws" for j
    using windowed_from_upt[OF assms, of j 0 L] that by simp
  have len: "length (?ws ! j) = n" if "j < length ?ws" for j
  proof -
    have "j * step < L" using mem[of j] that by auto
    then show ?thesis unfolding win[OF that] by (simp add: min_def)
  qed
  show ?thesis using run mem win len by blast
qed

theorem windowed_pads_last_window_witness:
  "(1::nat) \<le> 4 \<and>
   (\<exists>ws. windowed [0..<10] 4 4 = Inr ws \<and> length ws = 3 \<and>
      ws ! 2 = [Some 8, Some 9, None, None])"
proof -
  have h: "(1::nat) \<le> 4" by simp
  from windowed_pads_last_window [OF h h, of 10]
  obtain ws where ws: "windowed [0..<10] 4 4 = Inr ws"
    and mem: "\<And>j. j < length ws \<longleftrightarrow> j = 0 \<or> (j * 4 < 10 \<and> (j - 1) * 4 + 4 < 10)"
    and win: "\<And>j. j < length ws \<Longrightarrow>
        ws ! j = map Some [j * 4..<min (j * 4 + 4) 10] @ replicate (j * 4 + 4 - 10) None"
    by auto
  have "2 < length ws" "\<not> 3 < length ws" using mem[of 2] mem[of 3] by simp_all
  then have len: "length ws = 3" by simp
  have "[8..<10] = [8, 9::nat]" by code_simp
  then have "ws ! 2 = [Some 8, Some 9, None, None]"
    using win[of 2] len by (simp add: numeral_eq_Suc)
  with ws len h show ?thesis by blast
qed

section \<open>Properties of the orchestrator\<close>

text \<open>
  C9. Claim: an unsupported mode makes the run fail with an UnsupportedMode condition
  before any I/O. \<^verbatim>\<open>process_directory\<close> never checks the mode. With the mode
  \<^verbatim>\<open>cross-subject\<close> it lists the input directory, computes the windows, skips both
  mode blocks and raises UnboundLocalError when line 293 reads \<^verbatim>\<open>train_names\<close>.
\<close>

theorem process_directory_unsupported_mode_counterexample:
  "process_directory
     \<lparr> dwt_alpha = A2, fft = A2, tripathi_features = (\<lambda>d f. d) \<rparr>
     (\<lambda>d. Some [''s01.dat'']) (\<lambda>f. (None :: rat recording option))
     \<lparr> choice = (\<lambda>a n. []), train_permutation = (\<lambda>n. []), test_permutation = (\<lambda>n. []),
       trial_shuffle = (\<lambda>f n. []), window_shuffle = (\<lambda>f e n. []) \<rparr>
     ''in'' ''out'' [''train'', ''test''] ''cross-subject'' (1 / 8) 8000 (1 / 3)
     (2, 2, 2, 2) 40 None None
   = \<lparr> listed = [''in''], loaded = [], record_files = [], meta_json = None,
       raised = Some (UnboundLocalError ''train_names'') \<rparr>"
  by code_simp

text \<open>
  C9, as the code behaves. For a mode that is neither supported value the outcome of
  \<^verbatim>\<open>process_directory\<close> is fixed by the listing and the windowing alone. When the
  input directory cannot be listed the run ends with the error of \<^verbatim>\<open>os.listdir\<close>;
  when the windowing raises, with that error, the directory listed. When both succeed,
  the run ends with the UnboundLocalError for \<^verbatim>\<open>train_names\<close>, the directory listed.
  In no case has an input file been read, a record file been opened or a manifest been
  written.
\<close>

theorem process_directory_unsupported_mode:
  assumes "mode \<noteq> ''subject-dependent''" and "mode \<noteq> ''subject-independent''"
  shows "process_directory ext listdir fs r input_dir target_directory out_names mode
           target_seconds trim_samples validation_split num_classes num_experiments
           processing window_step =
         (case listdir input_dir of
            None \<Rightarrow> \<lparr> listed = [], loaded = [], record_files = [], meta_json = None,
                       raised = Some (FileNotFound input_dir) \<rparr>
          | Some file_list \<Rightarrow>
              (case windowed [0..<nat (63 * 128 - trim_samples)] (py_int (128 * target_seconds))
                      (case window_step of
                         Some ws \<Rightarrow> 128 * num_val ws
                       | None \<Rightarrow> of_int (py_int (128 * target_seconds))) of
                 Inl e \<Rightarrow> \<lparr> listed = [input_dir], loaded = [], record_files = [],
                            meta_json = None, raised = Some e \<rparr>
               | Inr windows \<Rightarrow>
                   \<lparr> listed = [input_dir], loaded = [], record_files = [], meta_json = None,
                     raised = Some (UnboundLocalError ''train_names'') \<rparr>))"
  using assms
  by (simp add: process_directory_def write_manifest_def unbound_def Let_def
           split: option.splits sum.splits)

theorem process_directory_unsupported_mode_witness:
  "''both'' \<noteq> ''subject-dependent'' \<and> ''both'' \<noteq> ''subject-independent'' \<and>
   windowed [0..<nat (63 * 128 - 8000)] (py_int (128 * (1 / 4))) (128 * num_val (PInt 1)) =
     Inr [map Some [0..<32]] \<and>
   process_directory
     \<lparr> dwt_alpha = A2, fft = A2, tripathi_features = (\<lambda>d f. d) \<rparr>
     (\<lambda>d. Some [''s01.dat'', ''s02.dat'']) (\<lambda>f. (None :: rat recording option))
     \<lparr> choice = (\<lambda>a n. []), train_permutation = (\<lambda>n. []), test_permutation = (\<lambda>n. []),
       trial_shuffle = (\<lambda>f n. []), window_shuffle = (\<lambda>f e n. []) \<rparr>
     ''in'' ''out'' [''train'', ''test''] ''both'' (1 / 4) 8000 (1 / 5)
     (2, 2, 2, 2) 40 None (Some (PInt 1))
   = \<lparr> listed = [''in''], loaded = [], record_files = [], meta_json = None,
       raised = Some (UnboundLocalError ''train_names'') \<rparr>"
proof -
  have h1: "''both'' \<noteq> ''subject-dependent''" by simp
  have h2: "''both'' \<noteq> ''subject-independent''" by simp
  have w: "windowed [0..<nat (63 * 128 - 8000)] (py_int (128 * (1 / 4))) (128 * num_val (PInt 1)) =
     Inr [map Some [0..<32]]"
    by code_simp
  from process_directory_unsupported_mode [OF h1 h2,
     of "\<lparr> dwt_alpha = A2, fft = A2, tripathi_features = (\<lambda>d f. d) \<rparr>"
     "\<lambda>d. Some [''s01.dat'', ''s02.dat'']" "\<lambda>f. (None :: rat recording option)"
     "\<lparr> choice = (\<lambda>a n. []), train_permutation = (\<lambda>n. []), test_permutation = (\<lambda>n. []),
       trial_shuffle = (\<lambda>f n. []), window_shuffle = (\<lambda>f e n. []) \<rparr>"
     "''in''" "''out''" "[''train'', ''test'']" "1 / 4" 8000 "1 / 5" "(2, 2, 2, 2)" 40 None
     "Some (PInt 1)"]
  show ?thesis using w by simp
qed

section \<open>Properties of the channel slice\<close>

lemma counted_append:
  "counted P c (xs @ ys) = counted P c xs @ counted P (c + length xs) ys"
  by (induction xs arbitrary: c) simp_all

lemma buffer_examples_append:
  "buffer_examples (xs @ ys) b = bind_err (buffer_examples xs b) (buffer_examples ys)"
proof (induction xs arbitrary: b)
  case Nil
  then show ?case by simp
next
  case (Cons x xs)
  obtain d l where x: "x = (d, l)" by (cases x)
  show ?case
    by (cases "DEAPWriterBuffer_write_example d l b") (simp_all add: x Cons.IH)
qed

lemma routed_Nil: "routed vi [] st st' \<longleftrightarrow> st' = st"
  by (auto simp: routed_def)

lemma routed_appendD:
  assumes "routed vi (ps @ qs) st st''"
  obtains st' where "routed vi ps st st'" and "routed vi qs st' st''"
proof -
  let ?c = "current_sample st"
  from assms obtain tb vb
    where v: "buffer_examples (counted (\<lambda>i. i \<in> set vi) ?c (ps @ qs)) (test_writer st) = Inr vb"
      and t: "buffer_examples (counted (\<lambda>i. i \<notin> set vi) ?c (ps @ qs)) (train_writer st) = Inr tb"
      and s: "st'' = st\<lparr> train_writer := tb, test_writer := vb,
                          current_sample := ?c + length (ps @ qs) \<rparr>"
    unfolding routed_def by blast
  from v obtain vb1
    where v1: "buffer_examples (counted (\<lambda>i. i \<in> set vi) ?c ps) (test_writer st) = Inr vb1"
      and v2: "buffer_examples (counted (\<lambda>i. i \<in> set vi) (?c + length ps) qs) vb1 = Inr vb"
    by (cases "buffer_examples (counted (\<lambda>i. i \<in> set vi) ?c ps) (test_writer st)")
       (auto simp: counted_append buffer_examples_append)
  from t obtain tb1
    where t1: "buffer_examples (counted (\<lambda>i. i \<notin> set vi) ?c ps) (train_writer st) = Inr tb1"
      and t2: "buffer_examples (counted (\<lambda>i. i \<notin> set vi) (?c + length ps) qs) tb1 = Inr tb"
    by (cases "buffer_examples (counted (\<lambda>i. i \<notin> set vi) ?c ps) (train_writer st)")
       (auto simp: counted_append buffer_examples_append)
  let ?st' = "st\<lparr> train_writer := tb1, test_writer := vb1, current_sample := ?c + length ps \<rparr>"
  have a: "routed vi ps st ?st'" unfolding routed_def using v1 t1 by blast
  have b: "routed vi qs ?st' st''" unfolding routed_def using v2 t2 s by simp
  from a b that show thesis by blast
qed

lemma routed_single:
  assumes "routed vi [(s, l)] st st'"
  shows "emit_sample vi s l st = Inr st'"
proof (cases "current_sample st \<in> set vi")
  case True
  then show ?thesis using assms
    by (cases "DEAPWriterBuffer_write_example s l (test_writer st)")
       (auto simp: routed_def emit_sample_def)
next
  case False
  then show ?thesis using assms
    by (cases "DEAPWriterBuffer_write_example s l (train_writer st)")
       (auto simp: routed_def emit_sample_def)
qed

lemma emit_samples_routes:
  assumes "routed vi (map (\<lambda>s. (if axes_order = ''sensors-first'' \<and> processing \<noteq> Some ''fft''
                                  then swapaxes01 s else s, labels)) samples) st st'"
  shows "emit_samples axes_order processing vi labels samples st = (None, st')"
  using assms
proof (induction samples arbitrary: st)
  case Nil
  then show ?case by (simp add: routed_Nil)
next
  case (Cons s samples)
  let ?or = "\<lambda>s. (if axes_order = ''sensors-first'' \<and> processing \<noteq> Some ''fft''
                   then swapaxes01 s else s, labels)"
  from Cons.prems have "routed vi ([?or s] @ map ?or samples) st st'" by simp
  then obtain st1 where a: "routed vi [?or s] st st1" and b: "routed vi (map ?or samples) st1 st'"
    by (rule routed_appendD)
  have "emit_sample vi (fst (?or s)) labels st = Inr st1"
    by (rule routed_single) (use a in simp)
  then show ?case using Cons.IH[OF b] by (simp add: Let_def)
qed


lemma length_transpose_rect:
  assumes "\<forall>row \<in> set m. length row = n"
  shows "length (transpose m) = (if m = [] then 0 else n)"
proof -
  have "foldr (\<lambda>xs. max (length xs)) m 0 = (if m = [] then 0 else n)"
    using assms by (induction m) auto
  then show ?thesis by (simp add: length_transpose)
qed

lemma nth_transpose_rect:
  assumes "\<forall>row \<in> set m. length row = n" and "i < n" and "m \<noteq> []"
  shows "transpose m ! i = map (\<lambda>row. row ! i) m"
proof -
  have "i < length (transpose m)"
    using assms(2,3) by (simp add: length_transpose_rect[OF assms(1)])
  then have "transpose m ! i = map (\<lambda>xs. xs ! i) (filter (\<lambda>ys. i < length ys) m)"
    by (rule nth_transpose)
  moreover have "filter (\<lambda>ys. i < length ys) m = m" using assms by (simp add: filter_id_conv)
  ultimately show ?thesis by simp
qed


lemma select_rows_full:
  "\<forall>i \<in> set idx. i < length ed \<Longrightarrow> select_rows ed (map Some idx) = Inr (map ((!) ed) idx)"
  unfolding select_rows_def by (induction idx) (simp_all add: index_def)

lemma split_with_windows_full:
  "\<forall>idx \<in> set idxs. \<forall>i \<in> set idx. i < length ed \<Longrightarrow>
   split_with_windows ed (map (map Some) idxs) = Inr (map (\<lambda>idx. map ((!) ed) idx) idxs)"
  unfolding split_with_windows_def by (induction idxs) (simp_all add: select_rows_full)


lemma prepared_eq:
  "prepared trim_samples data = map (\<lambda>trial. drop (nat trim_samples) (transpose trial)) data"
  by (simp add: prepared_def)

lemma prepared_row:
  assumes rect: "\<forall>channel \<in> set trial. length channel = n" and ne: "trial \<noteq> []"
    and i: "t + i < n"
  shows "i < length (drop t (transpose trial))"
    and "drop t (transpose trial) ! i = map (\<lambda>channel. channel ! (t + i)) trial"
proof -
  have len: "length (transpose trial) = n" using length_transpose_rect[OF rect] ne by simp
  show "i < length (drop t (transpose trial))" using len i by simp
  show "drop t (transpose trial) ! i = map (\<lambda>channel. channel ! (t + i)) trial"
    using len i nth_transpose_rect[OF rect i ne] by simp
qed

lemma experiment_samples_rows:
  assumes rect: "\<forall>channel \<in> set trial. length channel = n" and ne: "trial \<noteq> []"
    and win: "\<forall>w \<in> set idxs. \<forall>i \<in> set w. t + i < n"
  shows "experiment_samples ext processing (map (map Some) idxs) (drop t (transpose trial)) =
     Inr (map (\<lambda>w.
            let rows = window_rows t (if processing = None then trial else take 32 trial) w
            in if processing = Some ''wavelet'' then dwt_alpha ext rows
               else if processing = Some ''fft'' then fft ext (transpose rows)
               else A2 rows) idxs)"
proof -
  let ?ed = "drop t (transpose trial)"
  let ?cut = "if processing \<noteq> None then map (take 32) ?ed else ?ed"
  have inb: "\<forall>w \<in> set idxs. \<forall>i \<in> set w. i < length ?cut"
    using prepared_row(1)[OF rect ne] win by auto
  have rows: "map ((!) ?cut) w =
      window_rows t (if processing = None then trial else take 32 trial) w"
    if "w \<in> set idxs" for w
    unfolding window_rows_def
  proof (rule map_cong[OF refl])
    fix i assume "i \<in> set w"
    then have i: "t + i < n" using win that by auto
    show "?cut ! i =
        map (\<lambda>channel. channel ! (t + i)) (if processing = None then trial else take 32 trial)"
      using prepared_row[OF rect ne i] by (auto simp: take_map)
  qed
  have "split_with_windows ?cut (map (map Some) idxs) = Inr (map (\<lambda>w. map ((!) ?cut) w) idxs)"
    by (rule split_with_windows_full[OF inb])
  also have "map (\<lambda>w. map ((!) ?cut) w) idxs =
      map (window_rows t (if processing = None then trial else take 32 trial)) idxs"
    using rows by simp
  finally show ?thesis
    by (simp add: experiment_samples_def Let_def comp_def)
qed


lemma process_experiment_routes:
  assumes rect: "\<forall>channel \<in> set trial. length channel = n" and ne: "trial \<noteq> []"
    and win: "\<forall>w \<in> set idxs. \<forall>i \<in> set w. t + i < n"
    and e: "e < length labels" "transform_labels lt (labels ! e) True = Inr (LabelArray l)"
    and r: "routed vi (trial_pairs ext axes_order processing t idxs l trial) st st'"
  shows "process_experiment ext lt labels vi (map (map Some) idxs) axes_order processing e
           (drop t (transpose trial)) st = (None, st')"
proof -
  let ?rows = "\<lambda>w. window_rows t (if processing = None then trial else take 32 trial) w"
  let ?s = "\<lambda>w. if processing = Some ''wavelet'' then dwt_alpha ext (?rows w)
               else if processing = Some ''fft'' then fft ext (transpose (?rows w))
               else A2 (?rows w)"
  have es: "experiment_samples ext processing (map (map Some) idxs) (drop t (transpose trial))
      = Inr (map ?s idxs)"
    using experiment_samples_rows[OF rect ne win, of ext processing] by (simp add: Let_def)
  have "trial_pairs ext axes_order processing t idxs l trial =
      map (\<lambda>s. (if axes_order = ''sensors-first'' \<and> processing \<noteq> Some ''fft''
                   then swapaxes01 s else s, l)) (map ?s idxs)"
    by (auto simp: trial_pairs_def built_def oriented_def)
  from emit_samples_routes[OF r[unfolded this]] es e
  show ?thesis by (simp add: process_experiment_def index_def)
qed

lemma experiments_loop_routes:
  assumes rect: "\<forall>trial \<in> set ts. trial \<noteq> [] \<and> (\<forall>channel \<in> set trial. length channel = n)"
    and win: "\<forall>w \<in> set idxs. \<forall>i \<in> set w. t + i < n"
    and lab: "\<forall>e. j \<le> e \<and> e < j + length ts \<longrightarrow>
                e < length labels \<and>
                transform_labels lt (labels ! e) True = Inr (LabelArray (binned e))"
    and r: "routed vi
              (concat (map (\<lambda>(e, trial). trial_pairs ext axes_order processing t idxs
                                            (binned e) trial)
                         (enumerate j ts))) st st'"
  shows "experiments_loop
           (process_experiment ext lt labels vi (map (map Some) idxs) axes_order processing)
           (enumerate j (map (\<lambda>trial. drop t (transpose trial)) ts)) st = (None, st')"
  using assms
proof (induction ts arbitrary: j st)
  case Nil
  then show ?case by (simp add: routed_Nil)
next
  case (Cons trial ts)
  from Cons.prems(4)
  have "routed vi
      (trial_pairs ext axes_order processing t idxs (binned j) trial @
       concat (map (\<lambda>(e, trial). trial_pairs ext axes_order processing t idxs (binned e) trial)
                 (enumerate (Suc j) ts))) st st'"
    by simp
  then obtain st1
    where a: "routed vi (trial_pairs ext axes_order processing t idxs (binned j) trial) st st1"
      and b: "routed vi
                (concat (map (\<lambda>(e, trial). trial_pairs ext axes_order processing t idxs
                                              (binned e) trial)
                           (enumerate (Suc j) ts))) st1 st'"
    by (rule routed_appendD)
  have step: "process_experiment ext lt labels vi (map (map Some) idxs) axes_order processing j
                (drop t (transpose trial)) st = (None, st1)"
    by (rule process_experiment_routes[where n = n and l = "binned j"])
       (use Cons.prems a in auto)
  have "experiments_loop
          (process_experiment ext lt labels vi (map (map Some) idxs) axes_order processing)
          (enumerate (Suc j) (map (\<lambda>trial. drop t (transpose trial)) ts)) st1 = (None, st')"
    by (rule Cons.IH) (use Cons.prems b in auto)
  then show ?case using step by simp
qed

lemma process_file_subject_dependent_routes:
  assumes stored: "fs in_file = Some (data, labels)"
    and rect: "\<forall>trial \<in> set data. trial \<noteq> [] \<and> (\<forall>channel \<in> set trial. length channel = n)"
    and win: "\<forall>w \<in> set idxs. \<forall>i \<in> set w. nat trim_samples + i < n"
    and lab: "\<forall>e<length data. e < length labels \<and>
         transform_labels
           (LabelTransformer_init valence arousal dominance liking
              [''valence'', ''arousal'', ''dominance'', ''liking''])
           (labels ! e) True = Inr (LabelArray (binned e))"
    and r: "routed vi
              (concat (map (\<lambda>(e, trial). trial_pairs ext axes_order processing
                                            (nat trim_samples) idxs (binned e) trial)
                         (enumerate 0 data))) st st'"
  shows "process_file_subject_dependent ext fs in_file vi (map (map Some) idxs) trim_samples
           (valence, arousal, dominance, liking) axes_order processing st = (None, st')"
proof -
  let ?lt = "LabelTransformer_init valence arousal dominance liking
               [''valence'', ''arousal'', ''dominance'', ''liking'']"
  have "experiments_loop
          (process_experiment ext ?lt labels vi (map (map Some) idxs) axes_order processing)
          (enumerate 0 (map (\<lambda>trial. drop (nat trim_samples) (transpose trial)) data)) st
        = (None, st')"
    by (rule experiments_loop_routes[where n = n and binned = binned])
       (use rect win lab r in auto)
  then show ?thesis
    using stored
    by (simp add: process_file_subject_dependent_def unpickle_def prepared_eq[unfolded prepared_def]
          Let_def)
qed

text \<open>
  C10. Let the trials of the file be rectangular, \<open>n\<close> time steps in every channel,
  let the windows hold positions that exist after trimming, and let the labels of
  trial \<open>e\<close> be binned to \<open>binned e\<close>. Then \<^verbatim>\<open>process_file_subject_dependent\<close>
  raises nothing and hands to the buffers, trial by trial and window by window, the
  samples built from the rows of the window, where a row holds the values of the first
  32 channels of the trial when a processing is configured (wavelet, fft, or any other
  value that is not \<open>None\<close>) and the values of all channels of the trial when it is
  not. The buffers are assumed to accept these samples: \<open>vb\<close> and \<open>tb\<close> are the test
  and the train buffer after the samples routed to them were appended.
\<close>

theorem processing_uses_first_32_channels:
  assumes stored: "fs in_file = Some (data, labels)"
    and rect: "\<forall>trial \<in> set data. trial \<noteq> [] \<and> (\<forall>channel \<in> set trial. length channel = n)"
    and win: "\<forall>w \<in> set idxs. \<forall>i \<in> set w. nat trim_samples + i < n"
    and lab: "\<forall>e<length data. e < length labels \<and>
         transform_labels
           (LabelTransformer_init valence arousal dominance liking
              [''valence'', ''arousal'', ''dominance'', ''liking''])
           (labels ! e) True = Inr (LabelArray (binned e))"
    and pairs: "pairs = concat (map (\<lambda>(e, trial).
            map (\<lambda>w. (built ext axes_order processing
                         (window_rows (nat trim_samples)
                            (if processing = None then trial else take 32 trial) w),
                       binned e)) idxs)
          (enumerate 0 data))"
    and test: "buffer_examples (counted (\<lambda>i. i \<in> set vi) (current_sample st) pairs)
                 (test_writer st) = Inr vb"
    and train: "buffer_examples (counted (\<lambda>i. i \<notin> set vi) (current_sample st) pairs)
                  (train_writer st) = Inr tb"
  shows "process_file_subject_dependent ext fs in_file vi (map (map Some) idxs) trim_samples
           (valence, arousal, dominance, liking) axes_order processing st =
         (None, st\<lparr> train_writer := tb, test_writer := vb,
                     current_sample := current_sample st + length pairs \<rparr>)"
proof -
  have p: "pairs = concat (map (\<lambda>(e, trial). trial_pairs ext axes_order processing
                                            (nat trim_samples) idxs (binned e) trial)
                         (enumerate 0 data))"
    unfolding pairs trial_pairs_def ..
  have "routed vi pairs st (st\<lparr> train_writer := tb, test_writer := vb,
                     current_sample := current_sample st + length pairs \<rparr>)"
    unfolding routed_def using test train by blast
  then show ?thesis
    unfolding p
    by (rule process_file_subject_dependent_routes[where n = n and binned = binned
          and labels = labels and fs = fs and in_file = in_file and data = data,
          OF stored rect win lab])
qed

theorem processing_uses_first_32_channels_witness:
  "length (map (\<lambda>c. [of_nat c, of_nat c + 100 :: rat]) [0..<33]) = 33 \<and>
   process_file_subject_dependent
     \<lparr> dwt_alpha = A2, fft = A2, tripathi_features = (\<lambda>d f. d) \<rparr>
     (\<lambda>f. Some ([map (\<lambda>c. [of_nat c, of_nat c + 100 :: rat]) [0..<33]], [[5, 5, 5, 5]]))
     ''s01.dat'' [1] (map (map Some) [[0], [1]]) 0 (2, 2, 2, 2) ''sensors-first''
     (Some ''wavelet'')
     \<lparr> train_writer =
         \<lparr> item_shape = (32, 1), label_len = 4, data_buffer = [replicate 32 [0::rat]],
           label_buffer = [[0, 0, 0, 0]], writer = DEAPWriter_init [''train''],
           collected = 0,
           buffer_label_names = [''valence'', ''arousal'', ''dominance'', ''liking''] \<rparr>,
       test_writer =
         \<lparr> item_shape = (32, 1), label_len = 4, data_buffer = [replicate 32 [0::rat]],
           label_buffer = [[0, 0, 0, 0]], writer = DEAPWriter_init [''test''],
           collected = 0,
           buffer_label_names = [''valence'', ''arousal'', ''dominance'', ''liking''] \<rparr>,
       current_sample = 0 \<rparr> =
   (None,
     \<lparr> train_writer =
         \<lparr> item_shape = (32, 1), label_len = 4, data_buffer = [map (\<lambda>c. [of_nat c :: rat]) [0..<32]],
           label_buffer = [[1, 1, 1, 1]], writer = DEAPWriter_init [''train''],
           collected = 1,
           buffer_label_names = [''valence'', ''arousal'', ''dominance'', ''liking''] \<rparr>,
       test_writer =
         \<lparr> item_shape = (32, 1), label_len = 4, data_buffer = [map (\<lambda>c. [of_nat c + 100 :: rat]) [0..<32]],
           label_buffer = [[1, 1, 1, 1]], writer = DEAPWriter_init [''test''],
           collected = 1,
           buffer_label_names = [''valence'', ''arousal'', ''dominance'', ''liking''] \<rparr>,
       current_sample = 2 \<rparr>)"
proof -
  let ?ext = "\<lparr> dwt_alpha = A2, fft = A2, tripathi_features = (\<lambda>d f. d) \<rparr> :: rat transforms"
  let ?trial = "map (\<lambda>c. [of_nat c, of_nat c + 100 :: rat]) [0..<33]"
  let ?data = "[?trial]"
  let ?labels = "[[5, 5, 5, 5 :: rat]]"
  let ?fs = "\<lambda>f::string. Some (?data, ?labels)"
  let ?names = "[''valence'', ''arousal'', ''dominance'', ''liking'']"
  let ?binned = "\<lambda>e::nat. [PInt 1, PInt 1, PInt 1, PInt 1]"
  have stored: "?fs ''s01.dat'' = Some (?data, ?labels)" by simp
  have rect: "\<forall>trial \<in> set ?data. trial \<noteq> [] \<and> (\<forall>channel \<in> set trial. length channel = 2)"
    by code_simp
  have win: "\<forall>w \<in> set [[0], [1::nat]]. \<forall>i \<in> set w. nat 0 + i < 2" by simp
  have l0: "transform_labels (LabelTransformer_init 2 2 2 2 ?names) [5, 5, 5, 5] True
      = Inr (LabelArray [PInt 1, PInt 1, PInt 1, PInt 1])"
    by code_simp
  have lab: "\<forall>e<length ?data. e < length ?labels \<and>
         transform_labels (LabelTransformer_init 2 2 2 2 ?names) (?labels ! e) True
           = Inr (LabelArray (?binned e))"
    using l0 by simp
  have test: "buffer_examples
      (counted (\<lambda>i. i \<in> set [1])
         (current_sample
            \<lparr> train_writer =
         \<lparr> item_shape = (32, 1), label_len = 4, data_buffer = [replicate 32 [0::rat]],
           label_buffer = [[0, 0, 0, 0]], writer = DEAPWriter_init [''train''],
           collected = 0,
           buffer_label_names = [''valence'', ''arousal'', ''dominance'', ''liking''] \<rparr>,
       test_writer =
         \<lparr> item_shape = (32, 1), label_len = 4, data_buffer = [replicate 32 [0::rat]],
           label_buffer = [[0, 0, 0, 0]], writer = DEAPWriter_init [''test''],
           collected = 0,
           buffer_label_names = [''valence'', ''arousal'', ''dominance'', ''liking''] \<rparr>,
       current_sample = 0 \<rparr>)
         (concat (map (\<lambda>(e, trial).
            map (\<lambda>w. (built \<lparr> dwt_alpha = A2, fft = A2, tripathi_features = (\<lambda>d f. d) \<rparr> ''sensors-first'' (Some ''wavelet'')
                         (window_rows (nat 0)
                            (if Some ''wavelet'' = None then trial else take 32 trial) w),
                       (\<lambda>e::nat. [PInt 1, PInt 1, PInt 1, PInt 1]) e)) [[0], [1]])
          (enumerate 0 [map (\<lambda>c. [of_nat c, of_nat c + 100 :: rat]) [0..<33]]))))
      (test_writer
         \<lparr> train_writer =
         \<lparr> item_shape = (32, 1), label_len = 4, data_buffer = [replicate 32 [0::rat]],
           label_buffer = [[0, 0, 0, 0]], writer = DEAPWriter_init [''train''],
           collected = 0,
           buffer_label_names = [''valence'', ''arousal'', ''dominance'', ''liking''] \<rparr>,
       test_writer =
         \<lparr> item_shape = (32, 1), label_len = 4, data_buffer = [replicate 32 [0::rat]],
           label_buffer = [[0, 0, 0, 0]], writer = DEAPWriter_init [''test''],
           collected = 0,
           buffer_label_names = [''valence'', ''arousal'', ''dominance'', ''liking''] \<rparr>,
       current_sample = 0 \<rparr>) =
      Inr \<lparr> item_shape = (32, 1), label_len = 4, data_buffer = [map (\<lambda>c. [of_nat c + 100 :: rat]) [0..<32]],
           label_buffer = [[1, 1, 1, 1]], writer = DEAPWriter_init [''test''],
           collected = 1,
           buffer_label_names = [''valence'', ''arousal'', ''dominance'', ''liking''] \<rparr>"
    by code_simp
  have train: "buffer_examples
      (counted (\<lambda>i. i \<notin> set [1])
         (current_sample
            \<lparr> train_writer =
         \<lparr> item_shape = (32, 1), label_len = 4, data_buffer = [replicate 32 [0::rat]],
           label_buffer = [[0, 0, 0, 0]], writer = DEAPWriter_init [''train''],
           collected = 0,
           buffer_label_names = [''valence'', ''arousal'', ''dominance'', ''liking''] \<rparr>,
       test_writer =
         \<lparr> item_shape = (32, 1), label_len = 4, data_buffer = [replicate 32 [0::rat]],
           label_buffer = [[0, 0, 0, 0]], writer = DEAPWriter_init [''test''],
           collected = 0,
           buffer_label_names = [''valence'', ''arousal'', ''dominance'', ''liking''] \<rparr>,
       current_sample = 0 \<rparr>)
         (concat (map (\<lambda>(e, trial).
            map (\<lambda>w. (built \<lparr> dwt_alpha = A2, fft = A2, tripathi_features = (\<lambda>d f. d) \<rparr> ''sensors-first'' (Some ''wavelet'')
                         (window_rows (nat 0)
                            (if Some ''wavelet'' = None then trial else take 32 trial) w),
                       (\<lambda>e::nat. [PInt 1, PInt 1, PInt 1, PInt 1]) e)) [[0], [1]])
          (enumerate 0 [map (\<lambda>c. [of_nat c, of_nat c + 100 :: rat]) [0..<33]]))))
      (train_writer
         \<lparr> train_writer =
         \<lparr> item_shape = (32, 1), label_len = 4, data_buffer = [replicate 32 [0::rat]],
           label_buffer = [[0, 0, 0, 0]], writer = DEAPWriter_init [''train''],
           collected = 0,
           buffer_label_names = [''valence'', ''arousal'', ''dominance'', ''liking''] \<rparr>,
       test_writer =
         \<lparr> item_shape = (32, 1), label_len = 4, data_buffer = [replicate 32 [0::rat]],
           label_buffer = [[0, 0, 0, 0]], writer = DEAPWriter_init [''test''],
           collected = 0,
           buffer_label_names = [''valence'', ''arousal'', ''dominance'', ''liking''] \<rparr>,
       current_sample = 0 \<rparr>) =
      Inr \<lparr> item_shape = (32, 1), label_len = 4, data_buffer = [map (\<lambda>c. [of_nat c :: rat]) [0..<32]],
           label_buffer = [[1, 1, 1, 1]], writer = DEAPWriter_init [''train''],
           collected = 1,
           buffer_label_names = [''valence'', ''arousal'', ''dominance'', ''liking''] \<rparr>"
    by code_simp
  have len: "length (concat (map (\<lambda>(e, trial).
            map (\<lambda>w. (built \<lparr> dwt_alpha = A2, fft = A2, tripathi_features = (\<lambda>d f. d) \<rparr> ''sensors-first'' (Some ''wavelet'')
                         (window_rows (nat 0)
                            (if Some ''wavelet'' = None then trial else take 32 trial) w),
                       (\<lambda>e::nat. [PInt 1, PInt 1, PInt 1, PInt 1]) e)) [[0], [1]])
          (enumerate 0 [map (\<lambda>c. [of_nat c, of_nat c + 100 :: rat]) [0..<33]]))) = 2"
    by simp
  have n: "length ?trial = 33" by simp
  from processing_uses_first_32_channels [where binned = ?binned and fs = ?fs
      and in_file = "''s01.dat''", OF stored rect win lab refl test train]
  show ?thesis using n len by simp
qed

section \<open>Properties of the subject-dependent split\<close>

text \<open>
  C5. Claim: the validation set has exactly \<open>round(total * validation_split)\<close> indices.
  Line 220 computes \<^verbatim>\<open>int(total_number_available * validation_split)\<close>, which
  truncates: for 3 samples and a split of one half it is 1, while rounding gives 2.
\<close>

theorem num_validation_truncates_counterexample:
  "num_validation 3 (1 / 2) = 1 \<and> py_round (of_nat 3 * (1 / 2)) = 2"
  by code_simp

lemma int_labels_update:
  "int_labels d \<Longrightarrow> PInt (int_cast v) = v \<Longrightarrow> int_labels (AList.update k v d)"
  unfolding int_labels_def by (induction d) auto

lemma int_labels_fold:
  "int_labels d \<Longrightarrow> \<forall>kv \<in> set kvs. PInt (int_cast (snd kv)) = snd kv \<Longrightarrow>
   int_labels (fold (\<lambda>(k, v) d. AList.update k v d) kvs d)"
  by (induction kvs arbitrary: d) (auto simp: int_labels_update)

lemma int_labels_dict_of:
  "class_ids l \<Longrightarrow> int_labels (dict_of (zip names l))"
  unfolding dict_of_def
  by (rule int_labels_fold) (auto simp: int_labels_def class_ids_def list_all_iff dest: set_zip_rightD)

lemma drained_int_labels:
  assumes "\<forall>p \<in> set ps. class_ids (snd p)" and "\<forall>i \<in> set permutation. i < length ps"
  shows "\<forall>q \<in> set (drained names ps permutation). int_labels (snd q)"
  using assms by (auto simp: drained_def int_labels_dict_of)

lemma write_example_shape:
  "DEAPWriter_write_example d l w = Inr w' \<Longrightarrow> shape w' = Some (ndarray_shape d)"
  by (auto simp: DEAPWriter_write_example_def bind_err_def Let_def
           split: sum.splits option.splits if_splits)

lemma write_examples_shape:
  assumes "write_examples exs w = Inr w'" and "exs \<noteq> []"
  shows "shape w' \<noteq> None"
proof -
  from assms(2) obtain ys d l where e: "exs = ys @ [(d, l)]"
    by (cases exs rule: rev_cases) auto
  from assms(1) obtain w1 where "DEAPWriter_write_example d l w1 = Inr w'"
    unfolding e
    by (cases "write_examples ys w")
       (auto simp: write_examples_append bind_err_def split: sum.splits)
  from write_example_shape[OF this] show ?thesis by simp
qed

lemma filled_buffer_exit:
  assumes names: "names \<noteq> []"
    and fit: "\<forall>p \<in> set ps. fits_slot sh llen p"
    and ints: "\<forall>p \<in> set ps. class_ids (snd p)"
    and perm: "mset permutation = mset [0..<length ps]"
    and b0: "b0 = \<lparr> item_shape = sh, label_len = llen,
                data_buffer = replicate (length ps) (replicate (fst sh) (replicate (snd sh) 0)),
                label_buffer = replicate (length ps) (replicate llen 0),
                writer = DEAPWriter_enter (DEAPWriter_init names), collected = 0,
                buffer_label_names = lnames \<rparr>"
  shows "\<exists>b b' w. buffer_examples ps b0 = Inr b \<and> collected b = length ps \<and>
           DEAPWriterBuffer_exit permutation pending b = (pending, b') \<and> writer b' = w \<and>
           write_examples (drained lnames ps permutation)
             (DEAPWriter_enter (DEAPWriter_init names)) = Inr w \<and>
           rr_state (length names) (drained lnames ps permutation) w"
proof -
  let ?dw = "DEAPWriter_enter (DEAPWriter_init names) :: 'a DEAPWriter"
  from buffer_examples_fill[of ps b0] fit
  obtain b where b: "buffer_examples ps b0 = Inr b" "collected b = length ps"
      "length (data_buffer b) = length ps" "length (label_buffer b) = length ps"
      "writer b = ?dw" "buffer_label_names b = lnames"
      "item_shape b = sh" "label_len b = llen"
    and dat: "\<forall>i<length ps. data_buffer b ! i = matrix_of (fst (ps ! i)) \<and>
                label_buffer b ! i = map int_cast (snd (ps ! i))"
    unfolding b0 by auto
  have fl: "flush_buffer permutation b =
     bind_err (write_examples (drained (buffer_label_names b) ps permutation) (writer b))
       (\<lambda>w. Inr (b\<lparr> data_buffer := map ((!) (data_buffer b)) permutation,
                     label_buffer := map ((!) (label_buffer b)) permutation,
                     writer := w \<rparr>))"
    by (rule flush_buffer_filled[where free = 0])
       (use fit ints b dat perm in auto)
  have pset: "set permutation = {0..<length ps}"
    using perm by (metis mset_eq_setD set_upt)
  then have inb: "\<forall>i \<in> set permutation. i < length ps" by auto
  have n: "0 < length names" using names by simp
  from rr_state_run[OF n rr_state_enter drained_int_labels[OF ints inb]]
  obtain w where w: "write_examples (drained lnames ps permutation) ?dw = Inr w"
    and st: "rr_state (length names) (drained lnames ps permutation) w" by blast
  have "DEAPWriterBuffer_exit permutation pending b =
      (pending, b\<lparr> data_buffer := map ((!) (data_buffer b)) permutation,
                     label_buffer := map ((!) (label_buffer b)) permutation,
                     writer := w \<rparr>)"
    using fl w b(5,6) by (simp add: DEAPWriterBuffer_exit_def)
  then show ?thesis using b(1,2) w st by auto
qed

lemma num_validation_floor:
  assumes "0 \<le> validation_split"
  shows "num_validation available validation_split
           = int (nat \<lfloor>of_nat available * validation_split\<rfloor>)"
  using assms by (simp add: num_validation_def py_int_def)

lemma floor_split_less:
  fixes validation_split :: rat
  assumes "0 \<le> validation_split" "validation_split < 1" "0 < available"
  shows "nat \<lfloor>of_nat available * validation_split\<rfloor> < available"
proof -
  have "(of_nat available * validation_split :: rat) < of_nat available"
    using assms by simp
  then have "\<lfloor>of_nat available * validation_split\<rfloor> < int available"
    by (simp add: floor_less_iff)
  then show ?thesis using assms(3) by linarith
qed

lemma counted_nths: "counted P c xs = nths xs {i. P (c + i)}"
proof (induction xs arbitrary: c)
  case Nil
  then show ?case by simp
next
  case (Cons x xs)
  have "{j. Suc j \<in> {i. P (c + i)}} = {i. P (Suc c + i)}" by auto
  then show ?case using Cons[of "Suc c"] by (simp add: nths_Cons)
qed


lemma choice_contract_counts:
  assumes "choice_contract available n vi" and "length ps = available"
  shows "length (nths ps (set vi)) = n" and "length (nths ps (- set vi)) = available - n"
proof -
  have vi: "length vi = n" "distinct vi" "set vi \<subseteq> {0..<available}"
    using assms(1) by (auto simp: choice_contract_def list_all_iff)
  have c: "card (set vi) = n" using vi(1,2) by (simp add: distinct_card)
  have "{i. i < length ps \<and> i \<in> set vi} = set vi" using vi(3) assms(2) by auto
  then show "length (nths ps (set vi)) = n" using c by (simp add: length_nths)
  have "{i. i < length ps \<and> i \<in> - set vi} = {0..<available} - set vi" using assms(2) by auto
  then have "length (nths ps (- set vi)) = card ({0..<available} - set vi)"
    by (simp add: length_nths)
  also have "\<dots> = card {0..<available} - card (set vi)"
    using vi(3) by (intro card_Diff_subset) auto
  finally show "length (nths ps (- set vi)) = available - n" using c by simp
qed

lemma length_recording_pairs:
  "length (recording_pairs ext axes_order processing t idxs binned data)
     = length data * length idxs"
proof -
  have "length (concat (map (\<lambda>(e, trial). trial_pairs ext axes_order processing t idxs
                                            (binned e) trial) (enumerate j data)))
      = length data * length idxs" for j
    by (induction data arbitrary: j) (simp_all add: trial_pairs_def)
  then show ?thesis by (simp add: recording_pairs_def)
qed

lemma dependent_files_routes:
  assumes files: "\<forall>name \<in> set files.
        fs (path_join input_dir name) = Some (trials name, labels name) \<and>
        (\<forall>trial \<in> set (trials name). trial \<noteq> [] \<and> (\<forall>channel \<in> set trial. length channel = n)) \<and>
        (\<forall>e<length (trials name). e < length (labels name) \<and>
           transform_labels
             (LabelTransformer_init valence arousal dominance liking
                [''valence'', ''arousal'', ''dominance'', ''liking''])
             (labels name ! e) True = Inr (LabelArray (binned name e)))"
    and win: "\<forall>w \<in> set idxs. \<forall>i \<in> set w. nat trim_samples + i < n"
    and r: "routed vi
              (concat (map (\<lambda>name. recording_pairs ext ''sensors-first'' processing
                                      (nat trim_samples) idxs (binned name) (trials name))
                         files)) st st'"
  shows "dependent_files ext fs input_dir vi (map (map Some) idxs) trim_samples
           (valence, arousal, dominance, liking) processing files (st, ld) =
         (None, st', ld @ map (path_join input_dir) files)"
  using files r
proof (induction files arbitrary: st ld)
  case Nil
  then show ?case by (simp add: routed_Nil)
next
  case (Cons x xs)
  from Cons.prems(2)
  have "routed vi
      (recording_pairs ext ''sensors-first'' processing (nat trim_samples) idxs (binned x)
         (trials x) @
       concat (map (\<lambda>name. recording_pairs ext ''sensors-first'' processing
                              (nat trim_samples) idxs (binned name) (trials name)) xs)) st st'"
    by simp
  then obtain st1
    where a: "routed vi (recording_pairs ext ''sensors-first'' processing (nat trim_samples)
                           idxs (binned x) (trials x)) st st1"
      and b: "routed vi
                (concat (map (\<lambda>name. recording_pairs ext ''sensors-first'' processing
                                  (nat trim_samples) idxs (binned name) (trials name)) xs))
                st1 st'"
    by (rule routed_appendD)
  have "process_file_subject_dependent ext fs (path_join input_dir x) vi (map (map Some) idxs)
          trim_samples (valence, arousal, dominance, liking) ''sensors-first'' processing st
        = (None, st1)"
    by (rule process_file_subject_dependent_routes[where n = n and binned = "binned x"
          and labels = "labels x" and data = "trials x"])
       (use Cons.prems(1) win a in \<open>auto simp: recording_pairs_def\<close>)
  moreover have "dependent_files ext fs input_dir vi (map (map Some) idxs) trim_samples
           (valence, arousal, dominance, liking) processing xs
           (st1, ld @ [path_join input_dir x]) =
         (None, st', (ld @ [path_join input_dir x]) @ map (path_join input_dir) xs)"
    by (rule Cons.IH) (use Cons.prems(1) b in auto)
  ultimately show ?case by (simp add: Let_def)
qed

lemma length_run_pairs:
  assumes "\<forall>name \<in> set files. length (trials name) = k"
  shows "length (concat (map (\<lambda>name. recording_pairs ext axes_order processing t idxs
                                         (binned name) (trials name)) files))
     = length files * k * length idxs"
  using assms by (induction files) (simp_all add: length_recording_pairs algebra_simps)

text \<open>
  C5, as the code behaves. Let every listed file be a \<^verbatim>\<open>.dat\<close> file that holds
  \<open>num_experiments\<close> rectangular trials with labels that bin to class ids, let the
  windows hold positions that exist after trimming, and let \<open>pairs\<close> be the pairs of
  all files in generation order (at least one), every sample of the slot shape
  \<open>(40, samples_per_chunk)\<close>. Let the split be in \<open>[0, 1)\<close>, let \<^verbatim>\<open>np.random.choice\<close>
  return \<open>vi\<close>, distinct numbers below the total, as many as asked for, and let the
  two draws of \<^verbatim>\<open>np.random.permutation\<close> be permutations. Then the block asks for
  \<open>nv = \<lfloor>total * validation_split\<rfloor>\<close> validation indices (the product truncated, not
  rounded), it raises nothing and reads every file; the test files receive exactly the
  pairs whose running number, counted from 0 over all files and trials, is in \<open>vi\<close>,
  the train files exactly the others, each set in the order of its permutation; these
  are \<open>nv\<close> and \<open>total - nv\<close> pairs, which are also the record counts of the two
  writers and the numbers that the block reports.
\<close>

theorem validation_split_routing:
  fixes ext :: "'a::zero transforms"
  assumes dat: "\<forall>name \<in> set file_list. contains ''.dat'' name"
    and files: "\<forall>name \<in> set file_list.
        fs (path_join input_dir name) = Some (trials name, labels name) \<and>
        length (trials name) = num_experiments \<and>
        (\<forall>trial \<in> set (trials name). trial \<noteq> [] \<and> (\<forall>channel \<in> set trial. length channel = n)) \<and>
        (\<forall>e<num_experiments. e < length (labels name) \<and>
           transform_labels
             (LabelTransformer_init valence arousal dominance liking
                [''valence'', ''arousal'', ''dominance'', ''liking''])
             (labels name ! e) True = Inr (LabelArray (binned name e)))"
    and win: "\<forall>w \<in> set idxs. \<forall>i \<in> set w. nat trim_samples + i < n"
    and pairs: "pairs = concat (map (\<lambda>name. recording_pairs ext ''sensors-first'' processing
                                         (nat trim_samples) idxs (binned name) (trials name))
                                 file_list)"
    and ne: "pairs \<noteq> []"
    and fit: "\<forall>p \<in> set pairs. fits_slot (40, nat samples_per_chunk) 4 p"
    and ints: "\<forall>p \<in> set pairs. class_ids (snd p)"
    and split: "0 \<le> validation_split" "validation_split < 1"
    and nv: "nv = nat \<lfloor>of_nat (length pairs) * validation_split\<rfloor>"
    and draw: "vi = choice r (length pairs) nv" "choice_contract (length pairs) nv vi"
    and perms: "mset (train_permutation r (length pairs - nv)) = mset [0..<length pairs - nv]"
      "mset (test_permutation r nv) = mset [0..<nv]"
    and names: "trains = filter (contains ''train'') out_names" "trains \<noteq> []"
      "tests = filter (contains ''test'') out_names" "tests \<noteq> []"
  shows "\<exists>tw vw sh.
     subject_dependent_block ext fs r input_dir out_names file_list (map (map Some) idxs)
       samples_per_chunk trim_samples validation_split (valence, arousal, dominance, liking)
       num_experiments processing =
       \<lparr> pass_raised = None, pass_loaded = map (path_join input_dir) file_list,
         pass_files = [DEAPWriter_exit tw, DEAPWriter_exit vw],
         pass_locals = \<lparr> train_names = Some trains, test_names = Some tests,
                         records_available =
                           Some (int (length pairs) - int nv, int nv, int (length pairs)),
                         shape_var = Some sh \<rparr> \<rparr> \<and>
     length pairs = length file_list * num_experiments * length idxs \<and>
     write_examples
       (drained [''valence'', ''arousal'', ''dominance'', ''liking'']
          (nths pairs (- set vi)) (train_permutation r (length pairs - nv)))
       (DEAPWriter_enter (DEAPWriter_init trains)) = Inr tw \<and>
     write_examples
       (drained [''valence'', ''arousal'', ''dominance'', ''liking'']
          (nths pairs (set vi)) (test_permutation r nv))
       (DEAPWriter_enter (DEAPWriter_init tests)) = Inr vw \<and>
     length (nths pairs (set vi)) = nv \<and>
     length (nths pairs (- set vi)) = length pairs - nv \<and>
     sum_list (records_processed vw) = nv \<and>
     sum_list (records_processed tw) = length pairs - nv"
proof -
  let ?available = "length pairs"
  let ?names = "[''valence'', ''arousal'', ''dominance'', ''liking'']"
  let ?sh = "(40 :: nat, nat samples_per_chunk)"
  let ?train_dw = "DEAPWriter_enter (DEAPWriter_init trains) :: 'a DEAPWriter"
  let ?test_dw = "DEAPWriter_enter (DEAPWriter_init tests) :: 'a DEAPWriter"
  let ?psv = "nths pairs (set vi)" and ?pst = "nths pairs (- set vi)"
  let ?pv = "test_permutation r nv" and ?pt = "train_permutation r (?available - nv)"
  have pos: "0 < ?available" using ne by simp
  have subjects: "filter (contains ''.dat'') file_list = file_list"
    using dat by (simp add: filter_id_conv)
  have len: "?available = length file_list * num_experiments * length idxs"
    unfolding pairs by (rule length_run_pairs) (use files in auto)
  have numv: "num_validation ?available validation_split = int nv"
    unfolding nv by (rule num_validation_floor[OF split(1)])
  have less: "nv < ?available"
    unfolding nv by (rule floor_split_less[OF split pos])
  have choice: "random_choice r ?available (int nv) = Inr vi"
    using pos less draw(1) by (simp add: random_choice_def)
  note counts = choice_contract_counts[OF draw(2) refl]
  let ?tb0 = "\<lparr> item_shape = ?sh, label_len = 4,
                data_buffer = replicate (length ?pst)
                                (replicate (fst ?sh) (replicate (snd ?sh) (0::'a))),
                label_buffer = replicate (length ?pst) (replicate 4 0),
                writer = ?train_dw, collected = 0, buffer_label_names = ?names \<rparr>"
  let ?vb0 = "\<lparr> item_shape = ?sh, label_len = 4,
                data_buffer = replicate (length ?psv)
                                (replicate (fst ?sh) (replicate (snd ?sh) (0::'a))),
                label_buffer = replicate (length ?psv) (replicate 4 0),
                writer = ?test_dw, collected = 0, buffer_label_names = ?names \<rparr>"
  have "nat (int ?available - int nv) = ?available - nv" by simp
  then have tb0: "DEAPWriterBuffer_init ?train_dw ?sh 4 (int ?available - int nv) = Inr ?tb0"
    using less counts(2) by (simp add: DEAPWriterBuffer_init_def)
  have vb0: "DEAPWriterBuffer_init ?test_dw ?sh 4 (int nv) = Inr ?vb0"
    using counts(1) by (simp add: DEAPWriterBuffer_init_def)
  have fitv: "\<forall>p \<in> set ?psv. fits_slot ?sh 4 p"
    using fit set_nths_subset[of pairs "set vi"] by auto
  have fitt: "\<forall>p \<in> set ?pst. fits_slot ?sh 4 p"
    using fit set_nths_subset[of pairs "- set vi"] by auto
  have intv: "\<forall>p \<in> set ?psv. class_ids (snd p)"
    using ints set_nths_subset[of pairs "set vi"] by auto
  have intt: "\<forall>p \<in> set ?pst. class_ids (snd p)"
    using ints set_nths_subset[of pairs "- set vi"] by auto
  have permv: "mset ?pv = mset [0..<length ?psv]" using perms(2) counts(1) by simp
  have permt: "mset ?pt = mset [0..<length ?pst]" using perms(1) counts(2) by simp
  from filled_buffer_exit[OF names(4) fitv intv permv refl, of ?names None]
  obtain vb vb' vw where vb: "buffer_examples ?psv ?vb0 = Inr vb"
    and vx: "DEAPWriterBuffer_exit ?pv None vb = (None, vb')" "writer vb' = vw"
       "collected vb = length ?psv"
    and vw: "write_examples (drained ?names ?psv ?pv) ?test_dw = Inr vw"
      "rr_state (length tests) (drained ?names ?psv ?pv) vw"
    by blast
  from filled_buffer_exit[OF names(2) fitt intt permt refl, of ?names None]
  obtain tb tb' tw where tb: "buffer_examples ?pst ?tb0 = Inr tb"
    and tx: "DEAPWriterBuffer_exit ?pt None tb = (None, tb')" "writer tb' = tw"
       "collected tb = length ?pst"
    and tw: "write_examples (drained ?names ?pst ?pt) ?train_dw = Inr tw"
      "rr_state (length trains) (drained ?names ?pst ?pt) tw"
    by blast
  let ?st0 = "\<lparr> train_writer = ?tb0, test_writer = ?vb0, current_sample = 0 \<rparr>"
  let ?st1 = "\<lparr> train_writer = tb, test_writer = vb, current_sample = ?available \<rparr>"
  have n1: "counted (\<lambda>i. i \<in> set vi) 0 pairs = ?psv"
    by (simp add: counted_nths)
  have "{i. i \<notin> set vi} = - set vi" by auto
  then have n2: "counted (\<lambda>i. i \<notin> set vi) 0 pairs = ?pst"
    by (simp add: counted_nths)
  have routed: "routed vi pairs ?st0 ?st1"
    unfolding routed_def using vb tb n1 n2 by simp
  have loop: "dependent_files ext fs input_dir vi (map (map Some) idxs) trim_samples
        (valence, arousal, dominance, liking) processing file_list (?st0, []) =
        (None, ?st1, [] @ map (path_join input_dir) file_list)"
  proof -
    have f: "\<forall>name \<in> set file_list.
        fs (path_join input_dir name) = Some (trials name, labels name) \<and>
        (\<forall>trial \<in> set (trials name). trial \<noteq> [] \<and> (\<forall>channel \<in> set trial. length channel = n)) \<and>
        (\<forall>e<length (trials name). e < length (labels name) \<and>
           transform_labels
             (LabelTransformer_init valence arousal dominance liking
                [''valence'', ''arousal'', ''dominance'', ''liking''])
             (labels name ! e) True = Inr (LabelArray (binned name e)))"
      using files by simp
    have r: "routed vi
        (concat (map (\<lambda>name. recording_pairs ext ''sensors-first'' processing
                                (nat trim_samples) idxs (binned name) (trials name))
                   file_list)) ?st0 ?st1"
      using routed unfolding pairs .
    show ?thesis
      by (rule dependent_files_routes[where n = n and binned = binned and labels = labels
            and trials = trials, OF f win r])
  qed
  have tlen: "length (drained ?names ?pst ?pt) = ?available - nv"
    using permt counts(2) by (simp add: drained_def mset_eq_length[OF permt])
  have vlen: "length (drained ?names ?psv ?pv) = nv"
    using permv counts(1) by (simp add: drained_def mset_eq_length[OF permv])
  have "drained ?names ?pst ?pt \<noteq> []" using tlen less by auto
  from write_examples_shape[OF tw(1) this] obtain sh where sh: "shape tw = Some sh" by auto
  have sumv: "sum_list (records_processed vw) = nv"
    using rr_state_sum[OF _ vw(2)] names(4) vlen by simp
  have sumt: "sum_list (records_processed tw) = ?available - nv"
    using rr_state_sum[OF _ tw(2)] names(2) tlen by simp
  have total: "length (filter (contains ''.dat'') file_list) * num_experiments
        * length (map (map Some) idxs) = ?available"
    using subjects len by simp
  have block: "subject_dependent_block ext fs r input_dir out_names file_list
       (map (map Some) idxs) samples_per_chunk trim_samples validation_split
       (valence, arousal, dominance, liking) num_experiments processing =
       \<lparr> pass_raised = None, pass_loaded = map (path_join input_dir) file_list,
         pass_files = [DEAPWriter_exit tw, DEAPWriter_exit vw],
         pass_locals = \<lparr> train_names = Some trains, test_names = Some tests,
                         records_available =
                           Some (int ?available - int nv, int nv, int ?available),
                         shape_var = Some sh \<rparr> \<rparr>"
    unfolding subject_dependent_block_def Let_def total numv choice
    using tb0 vb0 loop vx(1,2) tx(1,2) sh vx(3) tx(3) counts
    by (simp add: names(1,3)[symmetric] unbound_def)
  show ?thesis using block len tw(1) vw(1) counts sumv sumt by blast
qed

theorem validation_split_routing_witness:
  "choice_contract 6 1 [4] \<and>
   nat \<lfloor>of_nat 6 * (1 / 4 :: rat)\<rfloor> = 1 \<and>
   (\<exists>tw vw sh.
      subject_dependent_block
        \<lparr> dwt_alpha = A2, fft = A2, tripathi_features = (\<lambda>d f. d) \<rparr>
        (\<lambda>f. Some ([replicate 40 [0::rat], replicate 40 [1], replicate 40 [2]],
                    [[2, 2, 2, 2], [5, 5, 5, 5], [7, 7, 7, 7]]))
        \<lparr> choice = (\<lambda>a n. [4]), train_permutation = (\<lambda>n. rev [0..<n]),
          test_permutation = (\<lambda>n. [0..<n]), trial_shuffle = (\<lambda>f n. []),
          window_shuffle = (\<lambda>f e n. []) \<rparr>
        ''in'' [''train-0'', ''test-0''] [''s01.dat'', ''s02.dat''] [[Some 0]] 1 0 (1 / 4)
        (2, 2, 2, 2) 3 None =
        \<lparr> pass_raised = None, pass_loaded = [''in/s01.dat'', ''in/s02.dat''],
          pass_files = [DEAPWriter_exit tw, DEAPWriter_exit vw],
          pass_locals = \<lparr> train_names = Some [''train-0''], test_names = Some [''test-0''],
                          records_available = Some (5, 1, 6), shape_var = Some sh \<rparr> \<rparr> \<and>
      write_examples
        [(A2 (replicate 40 [1]), [(''valence'', PInt 1), (''arousal'', PInt 1),
                                  (''dominance'', PInt 1), (''liking'', PInt 1)])]
        (DEAPWriter_enter (DEAPWriter_init [''test-0''])) = Inr vw \<and>
      sum_list (records_processed vw) = 1 \<and> sum_list (records_processed tw) = 5)"
proof -
  let ?ext = "\<lparr> dwt_alpha = A2, fft = A2, tripathi_features = (\<lambda>d f. d) \<rparr>
                :: rat transforms"
  let ?T = "[replicate 40 [0::rat], replicate 40 [1], replicate 40 [2]]"
  let ?L = "[[2, 2, 2, 2], [5, 5, 5, 5], [7, 7, 7, 7::rat]]"
  let ?fs = "\<lambda>f::string. Some (?T, ?L)"
  let ?trials = "\<lambda>name::string. ?T"
  let ?labels = "\<lambda>name::string. ?L"
  let ?binned = "\<lambda>(name::string) (e::nat).
                   if e = 0 then [PInt 0, PInt 0, PInt 0, PInt 0]
                   else [PInt 1, PInt 1, PInt 1, PInt 1]"
  let ?r = "\<lparr> choice = (\<lambda>a n. [4]), train_permutation = (\<lambda>n. rev [0..<n]),
          test_permutation = (\<lambda>n. [0..<n]), trial_shuffle = (\<lambda>f n. []),
          window_shuffle = (\<lambda>f e n. []) \<rparr>"
  let ?files = "[''s01.dat'', ''s02.dat'']"
  let ?pairs = "[(A2 (replicate 40 [0::rat]), [PInt 0, PInt 0, PInt 0, PInt 0]),
         (A2 (replicate 40 [1]), [PInt 1, PInt 1, PInt 1, PInt 1]),
         (A2 (replicate 40 [2]), [PInt 1, PInt 1, PInt 1, PInt 1]),
         (A2 (replicate 40 [0]), [PInt 0, PInt 0, PInt 0, PInt 0]),
         (A2 (replicate 40 [1]), [PInt 1, PInt 1, PInt 1, PInt 1]),
         (A2 (replicate 40 [2]), [PInt 1, PInt 1, PInt 1, PInt 1])]"
  let ?names = "[''valence'', ''arousal'', ''dominance'', ''liking'']"
  let ?lt = "LabelTransformer_init 2 2 2 2 ?names"
  have dat: "\<forall>name \<in> set ?files. contains ''.dat'' name" by code_simp
  have l0: "transform_labels ?lt [2, 2, 2, 2] True = Inr (LabelArray (?binned [] 0))"
    by code_simp
  have l1: "transform_labels ?lt [5, 5, 5, 5] True = Inr (LabelArray (?binned [] 1))"
    by code_simp
  have l2: "transform_labels ?lt [7, 7, 7, 7] True = Inr (LabelArray (?binned [] 2))"
    by code_simp
  have lab: "\<forall>e<3. e < length ?L \<and>
      transform_labels ?lt (?L ! e) True = Inr (LabelArray (?binned name e))"
    for name :: string
  proof (intro allI impI)
    fix e :: nat assume "e < 3"
    then have "e = 0 \<or> e = 1 \<or> e = 2" by auto
    then show "e < length ?L \<and>
        transform_labels ?lt (?L ! e) True = Inr (LabelArray (?binned name e))"
      using l0 l1 l2 by auto
  qed
  have files: "\<forall>name \<in> set ?files.
        ?fs (path_join ''in'' name) = Some (?trials name, ?labels name) \<and>
        length (?trials name) = 3 \<and>
        (\<forall>trial \<in> set (?trials name). trial \<noteq> [] \<and> (\<forall>channel \<in> set trial. length channel = 1)) \<and>
        (\<forall>e<3. e < length (?labels name) \<and>
           transform_labels ?lt (?labels name ! e) True = Inr (LabelArray (?binned name e)))"
    using lab by simp
  have win: "\<forall>w \<in> set [[0::nat]]. \<forall>i \<in> set w. nat 0 + i < 1" by simp
  have pe: "?pairs = concat (map (\<lambda>name. recording_pairs ?ext ''sensors-first'' None
                                         (nat 0) [[0]] (?binned name) (?trials name)) ?files)"
    by code_simp
  have ne: "?pairs \<noteq> []" by simp
  have fit: "\<forall>p \<in> set ?pairs. fits_slot (40, nat 1) 4 p"
    by (simp add: fits_slot_def list_all_iff)
  have ints: "\<forall>p \<in> set ?pairs. class_ids (snd p)" by (simp add: class_ids_def)
  have split: "0 \<le> (1 / 4 :: rat)" "(1 / 4 :: rat) < 1" by simp_all
  have fl: "nat \<lfloor>of_nat 6 * (1 / 4 :: rat)\<rfloor> = 1" by code_simp
  have nv: "1 = nat \<lfloor>of_nat (length ?pairs) * (1 / 4 :: rat)\<rfloor>" using fl by simp
  have draw: "[4] = choice ?r (length ?pairs) 1" by simp
  have contract: "choice_contract (length ?pairs) 1 [4]" by (simp add: choice_contract_def)
  have pt: "mset (train_permutation ?r (length ?pairs - 1)) = mset [0..<length ?pairs - 1]"
    by simp
  have pv: "mset (test_permutation ?r 1) = mset [0..<1]" by simp
  have trains: "[''train-0''] = filter (contains ''train'') [''train-0'', ''test-0'']"
    by code_simp
  have tests: "[''test-0''] = filter (contains ''test'') [''train-0'', ''test-0'']"
    by code_simp
  have t1: "[''train-0''] \<noteq> []" and t2: "[''test-0''] \<noteq> []" by simp_all
  have sel: "nths ?pairs (set [4]) = [(A2 (replicate 40 [1]), [PInt 1, PInt 1, PInt 1, PInt 1])]"
    by code_simp
  have dr: "drained ?names (nths ?pairs (set [4])) (test_permutation ?r 1) =
      [(A2 (replicate 40 [1]), [(''valence'', PInt 1), (''arousal'', PInt 1),
                                  (''dominance'', PInt 1), (''liking'', PInt 1)])]"
    unfolding sel by (simp add: drained_def dict_of_def)
  have join: "map (path_join ''in'') ?files = [''in/s01.dat'', ''in/s02.dat'']" by code_simp
  from validation_split_routing [where fs = ?fs and trials = ?trials and labels = ?labels
      and binned = ?binned and input_dir = "''in''" and n = 1,
      OF dat files win pe ne fit ints split nv draw contract pt pv trains t1 tests t2]
  obtain tw vw sh where
    blk: "subject_dependent_block ?ext ?fs ?r ''in'' [''train-0'', ''test-0''] ?files
        (map (map Some) [[0]]) 1 0 (1 / 4) (2, 2, 2, 2) 3 None =
        \<lparr> pass_raised = None, pass_loaded = map (path_join ''in'') ?files,
          pass_files = [DEAPWriter_exit tw, DEAPWriter_exit vw],
          pass_locals = \<lparr> train_names = Some [''train-0''], test_names = Some [''test-0''],
                          records_available =
                            Some (int (length ?pairs) - int 1, int 1, int (length ?pairs)),
                          shape_var = Some sh \<rparr> \<rparr>"
    and wv: "write_examples (drained ?names (nths ?pairs (set [4])) (test_permutation ?r 1))
        (DEAPWriter_enter (DEAPWriter_init [''test-0''])) = Inr vw"
    and sv: "sum_list (records_processed vw) = 1"
    and st: "sum_list (records_processed tw) = length ?pairs - 1"
    by blast
  have blk': "subject_dependent_block ?ext ?fs ?r ''in'' [''train-0'', ''test-0''] ?files
        [[Some 0]] 1 0 (1 / 4) (2, 2, 2, 2) 3 None =
        \<lparr> pass_raised = None, pass_loaded = [''in/s01.dat'', ''in/s02.dat''],
          pass_files = [DEAPWriter_exit tw, DEAPWriter_exit vw],
          pass_locals = \<lparr> train_names = Some [''train-0''], test_names = Some [''test-0''],
                          records_available = Some (5, 1, 6), shape_var = Some sh \<rparr> \<rparr>"
    using blk unfolding join by simp
  have wv': "write_examples
        [(A2 (replicate 40 [1]), [(''valence'', PInt 1), (''arousal'', PInt 1),
                                  (''dominance'', PInt 1), (''liking'', PInt 1)])]
        (DEAPWriter_enter (DEAPWriter_init [''test-0''])) = Inr vw"
    using wv unfolding dr .
  have st': "sum_list (records_processed tw) = 5" using st by simp
  have c6: "choice_contract 6 1 [4]" by (simp add: choice_contract_def)
  show ?thesis using c6 fl blk' wv' sv st' by blast
qed

section \<open>Properties of the subject-independent pass\<close>












end
